theory Spec2Isabelle
  imports Main
begin

section \<open>JavaScript values and the operations the classifiers use\<close>

text \<open>
  The classifiers of \<^verbatim>\<open>src/language-js/utils.js\<close> are duck-typed: a node is any
  object, a field that is absent reads as \<^verbatim>\<open>undefined\<close>, and reading a field of
  \<^verbatim>\<open>undefined\<close> or \<^verbatim>\<open>null\<close> throws. The model keeps this: a value is one
  of the shapes below, an object is its heap address and its own fields in order, and
  every function returns \<open>error + 'a\<close>, with \<open>Inl\<close> for a thrown exception.

  Numbers are the integers (the classifiers only compare lengths). Two operations of
  JavaScript are outside the model and are reported as \<open>Unmodelled\<close>, never as a
  result: coercing an array or an object to a primitive (and a string to a number), and
  comparing two arrays by reference (arrays carry no address here).
\<close>

datatype error = TypeError | Error string | Unmodelled

datatype jsval =
    Undefined
  | Null
  | Bool bool
  | Num int
  | Str string
  | Arr "jsval list"
  | Obj nat "(string \<times> jsval) list"

text \<open>Sequencing: an exception of the first computation is the exception of the whole.\<close>

definition and_then :: "error + 'a \<Rightarrow> ('a \<Rightarrow> error + 'b) \<Rightarrow> error + 'b" where
  "and_then r f = (case r of Inl e \<Rightarrow> Inl e | Inr x \<Rightarrow> f x)"

text \<open>\<^verbatim>\<open>a && b\<close> and \<^verbatim>\<open>a || b\<close> on booleans: the right operand is not evaluated
  (and cannot throw) when the left one decides.\<close>

definition and_also :: "error + bool \<Rightarrow> error + bool \<Rightarrow> error + bool" where
  "and_also a b = and_then a (\<lambda>x. if x then b else Inr False)"

definition or_else :: "error + bool \<Rightarrow> error + bool \<Rightarrow> error + bool" where
  "or_else a b = and_then a (\<lambda>x. if x then Inr True else b)"

text \<open>ToBoolean.\<close>

fun truthy :: "jsval \<Rightarrow> bool" where
  "truthy Undefined = False"
| "truthy Null = False"
| "truthy (Bool b) = b"
| "truthy (Num n) = (n \<noteq> 0)"
| "truthy (Str s) = (s \<noteq> [])"
| "truthy (Arr xs) = True"
| "truthy (Obj a fs) = True"

text \<open>\<^verbatim>\<open>a && b\<close> and \<^verbatim>\<open>a || b\<close> on arbitrary values: the result is one of the
  operands, not its truth value.\<close>

definition js_and :: "error + jsval \<Rightarrow> error + jsval \<Rightarrow> error + jsval" where
  "js_and a b = and_then a (\<lambda>x. if truthy x then b else Inr x)"

definition js_or :: "error + jsval \<Rightarrow> error + jsval \<Rightarrow> error + jsval" where
  "js_or a b = and_then a (\<lambda>x. if truthy x then Inr x else b)"

text \<open>
  Reading a named property. An object has its own fields; an array and a string have
  \<^verbatim>\<open>length\<close>; every other name reads as \<^verbatim>\<open>undefined\<close> (none of the names the
  classifiers read is a method of a built-in prototype).
\<close>

fun own_field :: "jsval \<Rightarrow> string \<Rightarrow> jsval" where
  "own_field (Obj a fs) k = (case map_of fs k of Some v \<Rightarrow> v | None \<Rightarrow> Undefined)"
| "own_field (Arr xs) k = (if k = ''length'' then Num (int (length xs)) else Undefined)"
| "own_field (Str s) k = (if k = ''length'' then Num (int (length s)) else Undefined)"
| "own_field v k = Undefined"

definition get :: "jsval \<Rightarrow> string \<Rightarrow> error + jsval" where
  "get v k = (if v = Undefined \<or> v = Null then Inl TypeError else Inr (own_field v k))"

text \<open>Decimal digits of an index, for \<^verbatim>\<open>o[0]\<close> on an object.\<close>

fun digits :: "nat \<Rightarrow> string" where
  "digits n =
     (if n < 10 then [''0123456789'' ! n]
      else digits (n div 10) @ [''0123456789'' ! (n mod 10)])"

text \<open>Reading an element by index: out of range reads as \<^verbatim>\<open>undefined\<close>.\<close>

fun index :: "jsval \<Rightarrow> nat \<Rightarrow> error + jsval" where
  "index Undefined i = Inl TypeError"
| "index Null i = Inl TypeError"
| "index (Arr xs) i = Inr (if i < length xs then xs ! i else Undefined)"
| "index (Str s) i = Inr (if i < length s then Str [s ! i] else Undefined)"
| "index (Obj a fs) i = Inr (own_field (Obj a fs) (digits i))"
| "index v i = Inr Undefined"

text \<open>\<^verbatim>\<open>node.type === "T"\<close>.\<close>

definition type_is :: "jsval \<Rightarrow> string \<Rightarrow> error + bool" where
  "type_is node t = and_then (get node ''type'') (\<lambda>ty. Inr (ty = Str t))"

text \<open>
  \<^verbatim>\<open>xs.every(f)\<close> and \<^verbatim>\<open>xs.filter(f)\<close>: the callback runs on the elements in
  order, \<^verbatim>\<open>every\<close> stops at the first element that fails, and an exception of the
  callback ends the call. The callbacks here return the truth value of what the
  JavaScript callback returns. On a value that is not an array the call throws
  (there is no such method to call).
\<close>

fun every_m :: "('a \<Rightarrow> error + bool) \<Rightarrow> 'a list \<Rightarrow> error + bool" where
  "every_m f [] = Inr True"
| "every_m f (x # xs) = and_then (f x) (\<lambda>b. if b then every_m f xs else Inr False)"

fun filter_m :: "('a \<Rightarrow> error + bool) \<Rightarrow> 'a list \<Rightarrow> error + 'a list" where
  "filter_m f [] = Inr []"
| "filter_m f (x # xs) =
     and_then (f x) (\<lambda>b. and_then (filter_m f xs) (\<lambda>ys. Inr (if b then x # ys else ys)))"

definition js_every :: "(jsval \<Rightarrow> error + bool) \<Rightarrow> jsval \<Rightarrow> error + bool" where
  "js_every f v = (case v of Arr xs \<Rightarrow> every_m f xs | _ \<Rightarrow> Inl TypeError)"

definition js_filter :: "(jsval \<Rightarrow> error + bool) \<Rightarrow> jsval \<Rightarrow> error + jsval list" where
  "js_filter f v = (case v of Arr xs \<Rightarrow> filter_m f xs | _ \<Rightarrow> Inl TypeError)"

text \<open>
  ToNumber, with \<open>None\<close> for NaN, and the comparisons \<^verbatim>\<open>v > n\<close> and \<^verbatim>\<open>v <= n\<close>
  against a number (a comparison with NaN is false).
\<close>

fun to_number :: "jsval \<Rightarrow> error + int option" where
  "to_number Undefined = Inr None"
| "to_number Null = Inr (Some 0)"
| "to_number (Bool b) = Inr (Some (if b then 1 else 0))"
| "to_number (Num n) = Inr (Some n)"
| "to_number v = Inl Unmodelled"

definition js_gt :: "jsval \<Rightarrow> int \<Rightarrow> error + bool" where
  "js_gt v n = and_then (to_number v) (\<lambda>x. Inr (case x of None \<Rightarrow> False | Some m \<Rightarrow> n < m))"

definition js_le :: "jsval \<Rightarrow> int \<Rightarrow> error + bool" where
  "js_le v n = and_then (to_number v) (\<lambda>x. Inr (case x of None \<Rightarrow> False | Some m \<Rightarrow> m \<le> n))"

text \<open>ToString of a primitive, and \<^verbatim>\<open>re.test(v)\<close> for a regular expression given
  as the set of strings it matches.\<close>

fun to_string :: "jsval \<Rightarrow> error + string" where
  "to_string Undefined = Inr ''undefined''"
| "to_string Null = Inr ''null''"
| "to_string (Bool b) = Inr (if b then ''true'' else ''false'')"
| "to_string (Num n) = Inr (if n < 0 then CHR ''-'' # digits (nat (- n)) else digits (nat n))"
| "to_string (Str s) = Inr s"
| "to_string v = Inl Unmodelled"

definition regexp_test :: "(string \<Rightarrow> bool) \<Rightarrow> jsval \<Rightarrow> error + bool" where
  "regexp_test re v = and_then (to_string v) (\<lambda>s. Inr (re s))"

text \<open>
  \<^verbatim>\<open>a === b\<close>: primitives by value, objects by address. An object is never equal
  to a value of another shape.
\<close>

definition strict_eq :: "jsval \<Rightarrow> jsval \<Rightarrow> error + bool" where
  "strict_eq v w =
     (case (v, w) of
        (Obj a fs, Obj b gs) \<Rightarrow> Inr (a = b)
      | (Arr xs, Arr ys) \<Rightarrow> Inl Unmodelled
      | _ \<Rightarrow> Inr (v = w))"

text \<open>The ancestor stack, as far as the classifiers read it: the focus node and its
  parent (\<^verbatim>\<open>null\<close> at the root).\<close>

record path =
  getParentNode :: jsval
  getValue :: jsval

section \<open>The left side of an expression\<close>

text \<open>\<^verbatim>\<open>hasNakedLeftSide(node)\<close>.\<close>

definition hasNakedLeftSide :: "jsval \<Rightarrow> error + bool" where
  "hasNakedLeftSide node =
     or_else (type_is node ''AssignmentExpression'')
    (or_else (type_is node ''BinaryExpression'')
    (or_else (type_is node ''LogicalExpression'')
    (or_else (type_is node ''NGPipeExpression'')
    (or_else (type_is node ''ConditionalExpression'')
    (or_else (type_is node ''CallExpression'')
    (or_else (type_is node ''OptionalCallExpression'')
    (or_else (type_is node ''MemberExpression'')
    (or_else (type_is node ''OptionalMemberExpression'')
    (or_else (type_is node ''SequenceExpression'')
    (or_else (type_is node ''TaggedTemplateExpression'')
    (or_else (type_is node ''BindExpression'')
    (or_else (and_also (type_is node ''UpdateExpression'')
                (and_then (get node ''prefix'') (\<lambda>p. Inr (\<not> truthy p))))
    (or_else (type_is node ''TSAsExpression'')
             (type_is node ''TSNonNullExpression''))))))))))))))"

text \<open>\<^verbatim>\<open>getLeftSide(node)\<close>: the node-returning resolver. The chain of
  \<^verbatim>\<open>||\<close> returns its last operand when no operand is truthy.\<close>

definition getLeftSide :: "jsval \<Rightarrow> error + jsval" where
  "getLeftSide node =
     and_then (get node ''expressions'') (\<lambda>es.
       if truthy es then index es 0
       else
         js_or (get node ''left'')
        (js_or (get node ''test'')
        (js_or (get node ''callee'')
        (js_or (get node ''object'')
        (js_or (get node ''tag'')
        (js_or (get node ''argument'')
               (get node ''expression'')))))))"

text \<open>\<^verbatim>\<open>getLeftSidePathName(path, node)\<close>: the path-returning resolver. It returns
  the names to follow from the node and does not use its first argument.\<close>

datatype name = Key string | Idx nat

definition getLeftSidePathName :: "'p \<Rightarrow> jsval \<Rightarrow> error + name list" where
  "getLeftSidePathName path node =
     and_then (get node ''expressions'') (\<lambda>es.
       if truthy es then Inr [Key ''expressions'', Idx 0]
       else and_then (get node ''left'') (\<lambda>l.
       if truthy l then Inr [Key ''left'']
       else and_then (get node ''test'') (\<lambda>t.
       if truthy t then Inr [Key ''test'']
       else and_then (get node ''object'') (\<lambda>ob.
       if truthy ob then Inr [Key ''object'']
       else and_then (get node ''callee'') (\<lambda>c.
       if truthy c then Inr [Key ''callee'']
       else and_then (get node ''tag'') (\<lambda>tg.
       if truthy tg then Inr [Key ''tag'']
       else and_then (get node ''argument'') (\<lambda>ar.
       if truthy ar then Inr [Key ''argument'']
       else and_then (get node ''expression'') (\<lambda>ex.
       if truthy ex then Inr [Key ''expression'']
       else Inl (Error ''Unexpected node has no left side'')))))))))"

text \<open>Modelled from the spec: the child of a node reached by following a list of
  field names and indices (the traversal of the Path utility, which is not part of
  this file): each name is read from the value reached so far.\<close>

fun follow :: "jsval \<Rightarrow> name list \<Rightarrow> error + jsval" where
  "follow v [] = Inr v"
| "follow v (Key k # ns) = and_then (get v k) (\<lambda>c. follow c ns)"
| "follow v (Idx i # ns) = and_then (index v i) (\<lambda>c. follow c ns)"

section \<open>Recursion through the combinators\<close>

text \<open>What the recursive classifiers below may assume about a recursive call that stands
  under a combinator: it is evaluated only when the combinator reaches it.\<close>

lemma and_then_cong [fundef_cong]:
  "r = r' \<Longrightarrow> (\<And>x. r' = Inr x \<Longrightarrow> f x = f' x) \<Longrightarrow> and_then r f = and_then r' f'"
  by (cases r') (simp_all add: and_then_def)

lemma and_also_cong [fundef_cong]:
  "a = a' \<Longrightarrow> (a' = Inr True \<Longrightarrow> b = b') \<Longrightarrow> and_also a b = and_also a' b'"
  by (auto simp: and_also_def and_then_def split: sum.splits)

lemma or_else_cong [fundef_cong]:
  "a = a' \<Longrightarrow> (a' = Inr False \<Longrightarrow> b = b') \<Longrightarrow> or_else a b = or_else a' b'"
  by (auto simp: or_else_def and_then_def split: sum.splits)

lemma js_or_cong [fundef_cong]:
  "a = a' \<Longrightarrow> (\<And>x. a' = Inr x \<Longrightarrow> \<not> truthy x \<Longrightarrow> b = b') \<Longrightarrow> js_or a b = js_or a' b'"
  by (auto simp: js_or_def and_then_def split: sum.splits)

lemma every_m_cong [fundef_cong]:
  "xs = ys \<Longrightarrow> (\<And>x. x \<in> set ys \<Longrightarrow> f x = g x) \<Longrightarrow> every_m f xs = every_m g ys"
  by (induction ys arbitrary: xs) (auto simp: and_then_def split: sum.splits)

lemma js_every_cong [fundef_cong]:
  "v = w \<Longrightarrow> (\<And>xs x. w = Arr xs \<Longrightarrow> x \<in> set xs \<Longrightarrow> f x = g x) \<Longrightarrow> js_every f v = js_every g w"
  unfolding js_every_def by (cases w) (auto intro: every_m_cong)

text \<open>A field of an object and an element of an array are smaller than it.\<close>

lemma size_own_field: "own_field n k = v \<Longrightarrow> v \<noteq> Undefined \<Longrightarrow> k \<noteq> ''length'' \<Longrightarrow> size v < size n"
proof (cases n)
  case (Obj a fs)
  assume "own_field n k = v" "v \<noteq> Undefined"
  with Obj have "map_of fs k = Some v" by (auto split: option.splits)
  then have "(k, v) \<in> set fs" by (rule map_of_SomeD)
  then have "size v < size_list (size_prod (\<lambda>x. 0) size) fs + 1"
    by (induction fs) auto
  with Obj show ?thesis by simp
qed auto

lemma size_get: "get n k = Inr v \<Longrightarrow> v \<noteq> Undefined \<Longrightarrow> k \<noteq> ''length'' \<Longrightarrow> size v < size n"
  by (auto simp: get_def split: if_splits intro: size_own_field)

lemma size_elem: "x \<in> set xs \<Longrightarrow> size x < size (Arr xs)"
  by (induction xs) auto

section \<open>Literals and literal-like values\<close>

text \<open>\<^verbatim>\<open>isLiteral(node)\<close>.\<close>

definition isLiteral :: "jsval \<Rightarrow> error + bool" where
  "isLiteral node =
     or_else (type_is node ''BooleanLiteral'')
    (or_else (type_is node ''DirectiveLiteral'')
    (or_else (type_is node ''Literal'')
    (or_else (type_is node ''NullLiteral'')
    (or_else (type_is node ''NumericLiteral'')
    (or_else (type_is node ''BigIntLiteral'')
    (or_else (type_is node ''RegExpLiteral'')
    (or_else (type_is node ''StringLiteral'')
    (or_else (type_is node ''TemplateLiteral'')
    (or_else (type_is node ''TSTypeLiteral'')
             (type_is node ''JSXText''))))))))))"

text \<open>The regular expression \<^verbatim>\<open>/^[A-Z_]+$/\<close>.\<close>

definition upperSnakeRe :: "string \<Rightarrow> bool" where
  "upperSnakeRe s = (s \<noteq> [] \<and> list_all (\<lambda>c. c \<in> set ''ABCDEFGHIJKLMNOPQRSTUVWXYZ_'') s)"

text \<open>\<^verbatim>\<open>isLiteralLikeValue(node)\<close>.\<close>

function isLiteralLikeValue :: "jsval \<Rightarrow> error + bool" where
  "isLiteralLikeValue node =
     or_else (isLiteral node)
    (or_else (and_also (type_is node ''Identifier'')
                (and_then (get node ''name'') (regexp_test upperSnakeRe)))
    (or_else (and_also (type_is node ''ArrayExpression'')
                (and_then (get node ''elements'')
                   (js_every (\<lambda>element.
                      and_also (Inr (element \<noteq> Null)) (isLiteralLikeValue element)))))
             (and_also (type_is node ''ObjectExpression'')
                (and_then (get node ''properties'')
                   (js_every (\<lambda>property.
                      and_then (get property ''computed'') (\<lambda>computed.
                        if truthy computed then Inr False
                        else and_then (get property ''value'') (\<lambda>v.
                          if truthy v then isLiteralLikeValue v else Inr False))))))))"
  by pat_completeness auto
termination
proof (relation "measure size")
  show "wf (measure size)" by simp
next
  fix node x xs element
  assume "get node ''elements'' = Inr x" "x = Arr xs" "element \<in> set xs"
  then show "(element, node) \<in> measure size"
    using size_get [of node "''elements''" x] size_elem [of element xs] by simp
next
  fix node x xs property computed v
  assume "get node ''properties'' = Inr x" "x = Arr xs" "property \<in> set xs"
    "get property ''value'' = Inr v" "truthy v"
  moreover from \<open>truthy v\<close> have "v \<noteq> Undefined" by auto
  ultimately show "(v, node) \<in> measure size"
    using size_get [of node "''properties''" x] size_elem [of property xs]
      size_get [of property "''value''" v] by auto
qed

declare isLiteralLikeValue.simps [simp del]

text \<open>\<^verbatim>\<open>typeof v === "number"\<close> and \<^verbatim>\<open>typeof v === "string"\<close>.\<close>

definition is_number :: "jsval \<Rightarrow> bool" where
  "is_number v = (case v of Num n \<Rightarrow> True | _ \<Rightarrow> False)"

definition is_string :: "jsval \<Rightarrow> bool" where
  "is_string v = (case v of Str s \<Rightarrow> True | _ \<Rightarrow> False)"

text \<open>\<^verbatim>\<open>isNumericLiteral\<close>, \<^verbatim>\<open>isStringLiteral\<close>, \<^verbatim>\<open>isFunctionOrArrowExpression\<close>,
  \<^verbatim>\<open>isFunctionOrArrowExpressionWithBody\<close>, \<^verbatim>\<open>isTemplateLiteral\<close>.\<close>

definition isNumericLiteral :: "jsval \<Rightarrow> error + bool" where
  "isNumericLiteral node =
     or_else (type_is node ''NumericLiteral'')
             (and_also (type_is node ''Literal'')
                (and_then (get node ''value'') (\<lambda>v. Inr (is_number v))))"

definition isStringLiteral :: "jsval \<Rightarrow> error + bool" where
  "isStringLiteral node =
     or_else (type_is node ''StringLiteral'')
             (and_also (type_is node ''Literal'')
                (and_then (get node ''value'') (\<lambda>v. Inr (is_string v))))"

definition isFunctionOrArrowExpression :: "jsval \<Rightarrow> error + bool" where
  "isFunctionOrArrowExpression node =
     or_else (type_is node ''FunctionExpression'')
             (type_is node ''ArrowFunctionExpression'')"

definition isFunctionOrArrowExpressionWithBody :: "jsval \<Rightarrow> error + bool" where
  "isFunctionOrArrowExpressionWithBody node =
     or_else (type_is node ''FunctionExpression'')
             (and_also (type_is node ''ArrowFunctionExpression'')
                (and_then (get node ''body'') (\<lambda>b. type_is b ''BlockStatement'')))"

definition isTemplateLiteral :: "jsval \<Rightarrow> error + bool" where
  "isTemplateLiteral node = type_is node ''TemplateLiteral''"

section \<open>Test calls\<close>

text \<open>\<^verbatim>\<open>isAngularTestWrapper(node)\<close>.\<close>

definition isAngularTestWrapper :: "jsval \<Rightarrow> error + bool" where
  "isAngularTestWrapper node =
     and_also (or_else (type_is node ''CallExpression'')
                       (type_is node ''OptionalCallExpression''))
    (and_then (get node ''callee'') (\<lambda>callee.
       and_also (type_is callee ''Identifier'')
         (and_then (get callee ''name'') (\<lambda>nm.
            Inr (nm = Str ''async'' \<or> nm = Str ''inject'' \<or> nm = Str ''fakeAsync'')))))"

text \<open>The regular expressions \<^verbatim>\<open>/^(skip|[fx]?(it|describe|test))$/\<close> and
  \<^verbatim>\<open>/^(before|after)(Each|All)$/\<close>, as the strings they match.\<close>

definition unitTestRe :: "string \<Rightarrow> bool" where
  "unitTestRe s =
     (s = ''skip'' \<or>
      s \<in> set [p @ t. p \<leftarrow> [[], ''f'', ''x''], t \<leftarrow> [''it'', ''describe'', ''test'']])"

definition unitTestSetUpRe :: "string \<Rightarrow> bool" where
  "unitTestSetUpRe s =
     (s \<in> set [p @ t. p \<leftarrow> [''before'', ''after''], t \<leftarrow> [''Each'', ''All'']])"

text \<open>\<^verbatim>\<open>isSkipOrOnlyBlock(node)\<close> and \<^verbatim>\<open>isUnitTestSetUp(n)\<close>.\<close>

definition isSkipOrOnlyBlock :: "jsval \<Rightarrow> error + bool" where
  "isSkipOrOnlyBlock node =
     and_then (get node ''callee'') (\<lambda>callee.
       and_also (or_else (type_is callee ''MemberExpression'')
                         (type_is callee ''OptionalMemberExpression''))
      (and_also (and_then (get callee ''object'') (\<lambda>ob. type_is ob ''Identifier''))
      (and_also (and_then (get callee ''property'') (\<lambda>pr. type_is pr ''Identifier''))
      (and_also (and_then (get callee ''object'') (\<lambda>ob.
                   and_then (get ob ''name'') (regexp_test unitTestRe)))
                (and_then (get callee ''property'') (\<lambda>pr.
                   and_then (get pr ''name'') (\<lambda>nm.
                     Inr (nm = Str ''only'' \<or> nm = Str ''skip''))))))))"

definition isUnitTestSetUp :: "jsval \<Rightarrow> error + bool" where
  "isUnitTestSetUp n =
     and_then (get n ''callee'') (\<lambda>callee.
       and_also (type_is callee ''Identifier'')
      (and_also (and_then (get callee ''name'') (regexp_test unitTestSetUpRe))
                (and_then (get n ''arguments'') (\<lambda>args.
                   and_then (get args ''length'') (\<lambda>len. Inr (len = Num 1))))))"

text \<open>\<^verbatim>\<open>isTestCall(n, parent)\<close>. The recursive call \<^verbatim>\<open>isTestCall(parent)\<close>
  passes no second argument, so there \<^verbatim>\<open>parent\<close> is \<^verbatim>\<open>undefined\<close>.\<close>

function isTestCall :: "jsval \<Rightarrow> jsval \<Rightarrow> error + bool" where
  "isTestCall n parent =
     and_then (type_is n ''CallExpression'') (\<lambda>is_call.
     if \<not> is_call then Inr False
     else and_then (get n ''arguments'') (\<lambda>args.
          and_then (get args ''length'') (\<lambda>len.
     if len = Num 1 then
       and_then (and_also (isAngularTestWrapper n)
                  (and_also (Inr (truthy parent)) (isTestCall parent Undefined))) (\<lambda>wrapped.
       if wrapped then and_then (index args 0) isFunctionOrArrowExpression
       else and_then (isUnitTestSetUp n) (\<lambda>set_up.
       if set_up then and_then (index args 0) isAngularTestWrapper
       else Inr False))
     else if len = Num 2 \<or> len = Num 3 then
       and_then
         (and_also
            (or_else (and_then (get n ''callee'') (\<lambda>callee.
                        and_also (type_is callee ''Identifier'')
                          (and_then (get callee ''name'') (regexp_test unitTestRe))))
                     (isSkipOrOnlyBlock n))
            (and_then (index args 0) (\<lambda>a0.
               or_else (isTemplateLiteral a0) (isStringLiteral a0)))) (\<lambda>named.
       if \<not> named then Inr False
       else and_then (index args 2) (\<lambda>a2.
            and_then (if truthy a2
                      then and_then (isNumericLiteral a2) (\<lambda>numeric. Inr (\<not> numeric))
                      else Inr False) (\<lambda>bad_timeout.
       if bad_timeout then Inr False
       else and_then (index args 1) (\<lambda>a1.
              or_else
                (if len = Num 2 then isFunctionOrArrowExpression a1
                 else and_also (isFunctionOrArrowExpressionWithBody a1)
                        (and_then (get a1 ''params'') (\<lambda>params.
                           and_then (get params ''length'') (\<lambda>l. js_le l 1))))
                (isAngularTestWrapper a1)))))
     else Inr False)))"
  by pat_completeness auto
termination
  by (relation "measure (\<lambda>(n, parent). if truthy parent then 1 else 0)") auto

declare isTestCall.simps [simp del]

section \<open>Simple template literals\<close>

text \<open>\<^verbatim>\<open>isSimpleTemplateLiteral(node)\<close>. The \<^verbatim>\<open>while\<close> loop over \<^verbatim>\<open>head\<close> is
  \<open>isSimpleTemplateLiteral_loop\<close>, entered at the test of the loop; the callback of
  \<^verbatim>\<open>every\<close> is \<open>isSimpleTemplateLiteral_expr\<close>.\<close>

function isSimpleTemplateLiteral_loop :: "jsval \<Rightarrow> error + bool" where
  "isSimpleTemplateLiteral_loop head =
     and_then (or_else (type_is head ''MemberExpression'')
                       (type_is head ''OptionalMemberExpression'')) (\<lambda>member.
     if member then
       and_then (get head ''property'') (\<lambda>property.
       and_then (get property ''type'') (\<lambda>pt.
       if pt \<noteq> Str ''Identifier'' \<and> pt \<noteq> Str ''Literal'' \<and>
          pt \<noteq> Str ''StringLiteral'' \<and> pt \<noteq> Str ''NumericLiteral''
       then Inr False
       else and_then (get head ''object'') (\<lambda>head'.
            and_then (get head' ''comments'') (\<lambda>comments.
            if truthy comments then Inr False
            else isSimpleTemplateLiteral_loop head'))))
     else or_else (type_is head ''Identifier'') (type_is head ''ThisExpression''))"
  by pat_completeness auto
termination
proof (relation "measure size")
  show "wf (measure size)" by simp
next
  fix head head' comments
  assume "get head ''object'' = Inr head'" "get head' ''comments'' = Inr comments"
  moreover from this(2) have "head' \<noteq> Undefined" by (auto simp: get_def)
  ultimately show "(head', head) \<in> measure size"
    using size_get [of head "''object''" head'] by simp
qed

declare isSimpleTemplateLiteral_loop.simps [simp del]

definition isSimpleTemplateLiteral_expr :: "jsval \<Rightarrow> error + bool" where
  "isSimpleTemplateLiteral_expr expr =
     and_then (get expr ''comments'') (\<lambda>comments.
     if truthy comments then Inr False
     else and_then (or_else (type_is expr ''Identifier'')
                            (type_is expr ''ThisExpression'')) (\<lambda>plain.
     if plain then Inr True
     else and_then (or_else (type_is expr ''MemberExpression'')
                            (type_is expr ''OptionalMemberExpression'')) (\<lambda>member.
     if member then isSimpleTemplateLiteral_loop expr
     else Inr False)))"

definition isSimpleTemplateLiteral :: "jsval \<Rightarrow> error + bool" where
  "isSimpleTemplateLiteral node =
     and_then (get node ''expressions'') (\<lambda>expressions.
     and_then (get expressions ''length'') (\<lambda>len.
     if len = Num 0 then Inr False
     else js_every isSimpleTemplateLiteral_expr expressions))"

section \<open>The last statement of a body\<close>

text \<open>\<^verbatim>\<open>isLastStatement(path)\<close>. \<^verbatim>\<open>body[body.length - 1]\<close> is
  \<^verbatim>\<open>undefined\<close> when the filtered array is empty.\<close>

definition isLastStatement :: "path \<Rightarrow> error + bool" where
  "isLastStatement path =
     (let parent = getParentNode path in
      if \<not> truthy parent then Inr True
      else
        let node = getValue path in
        and_then (js_or (get parent ''body'') (get parent ''consequent'')) (\<lambda>container.
        and_then (js_filter (\<lambda>stmt.
                    and_then (get stmt ''type'') (\<lambda>t. Inr (t \<noteq> Str ''EmptyStatement'')))
                    container) (\<lambda>body.
        strict_eq (if body = [] then Undefined else last body) node)))"

section \<open>Simple call arguments\<close>

text \<open>\<^verbatim>\<open>isSimpleCallArgument(node, depth)\<close>; \<^verbatim>\<open>plusOne\<close> and \<^verbatim>\<open>plusTwo\<close>
  are the recursive calls at \<open>depth + 1\<close> and \<open>depth + 2\<close>.\<close>

function isSimpleCallArgument :: "jsval \<Rightarrow> int \<Rightarrow> error + bool" where
  "isSimpleCallArgument node depth =
     (if depth \<ge> 3 then Inr False
      else
        and_then
          (js_or (js_and (and_then (type_is node ''Literal'') (\<lambda>b. Inr (Bool b)))
                   (js_and (get node ''regex'')
                      (and_then (get node ''regex'') (\<lambda>regex. get regex ''pattern''))))
                 (js_and (and_then (type_is node ''RegExpLiteral'') (\<lambda>b. Inr (Bool b)))
                    (get node ''pattern''))) (\<lambda>regexpPattern.
        and_then (if truthy regexpPattern
                  then and_then (get regexpPattern ''length'') (\<lambda>len. js_gt len 5)
                  else Inr False) (\<lambda>too_long.
        if too_long then Inr False
        else and_then (get node ''type'') (\<lambda>t.
        if t = Str ''Literal'' \<or> t = Str ''BigIntLiteral'' \<or> t = Str ''BooleanLiteral'' \<or>
           t = Str ''NullLiteral'' \<or> t = Str ''NumericLiteral'' \<or> t = Str ''RegExpLiteral'' \<or>
           t = Str ''StringLiteral'' \<or> t = Str ''Identifier'' \<or> t = Str ''ThisExpression'' \<or>
           t = Str ''Super'' \<or> t = Str ''PrivateName'' \<or> t = Str ''ArgumentPlaceholder'' \<or>
           t = Str ''Import''
        then Inr True
        else if t = Str ''TemplateLiteral'' then
          and_then (get node ''expressions'')
            (js_every (\<lambda>x. isSimpleCallArgument x (depth + 2)))
        else if t = Str ''ObjectExpression'' then
          and_then (get node ''properties'')
            (js_every (\<lambda>p.
               and_then (get p ''computed'') (\<lambda>computed.
               if truthy computed then Inr False
               else and_then (get p ''shorthand'') (\<lambda>shorthand.
               if truthy shorthand then Inr True
               else and_then (get p ''value'') (\<lambda>v.
               if truthy v then isSimpleCallArgument v (depth + 2) else Inr False)))))
        else if t = Str ''ArrayExpression'' then
          and_then (get node ''elements'')
            (js_every (\<lambda>x. or_else (Inr (x = Null)) (isSimpleCallArgument x (depth + 2))))
        else if t = Str ''CallExpression'' \<or> t = Str ''OptionalCallExpression'' \<or>
                t = Str ''NewExpression'' then
          and_also (and_then (get node ''callee'') (\<lambda>c. isSimpleCallArgument c (depth + 1)))
                   (and_then (get node ''arguments'')
                      (js_every (\<lambda>x. isSimpleCallArgument x (depth + 2))))
        else if t = Str ''MemberExpression'' \<or> t = Str ''OptionalMemberExpression'' then
          and_also (and_then (get node ''object'') (\<lambda>ob. isSimpleCallArgument ob (depth + 1)))
                   (and_then (get node ''property'') (\<lambda>pr. isSimpleCallArgument pr (depth + 1)))
        else and_then (and_also (Inr (t = Str ''UnaryExpression''))
                        (and_then (get node ''operator'') (\<lambda>operator.
                           Inr (operator = Str ''!'' \<or> operator = Str ''-'')))) (\<lambda>unary.
        if unary
        then and_then (get node ''argument'') (\<lambda>a. isSimpleCallArgument a (depth + 1))
        else if t = Str ''TSNonNullExpression''
        then and_then (get node ''expression'') (\<lambda>e. isSimpleCallArgument e (depth + 1))
        else Inr False)))))"
  by pat_completeness auto
termination
  by (relation "measure (\<lambda>(node, depth). nat (3 - depth))") auto

declare isSimpleCallArgument.simps [simp del]

section \<open>Blank lines in a block\<close>

text \<open>\<^verbatim>\<open>hasTopLevelBlankLines(source)\<close>: the \<^verbatim>\<open>for\<close> loop over the characters,
  with its two variables as arguments. A string is the list of its characters.\<close>

fun hasTopLevelBlankLines_loop :: "int \<Rightarrow> bool \<Rightarrow> string \<Rightarrow> bool" where
  "hasTopLevelBlankLines_loop curlyState newlineFound [] = False"
| "hasTopLevelBlankLines_loop curlyState newlineFound (char # rest) =
     (if char = CHR ''{'' then hasTopLevelBlankLines_loop (curlyState + 1) newlineFound rest
      else if char = CHR ''}'' then hasTopLevelBlankLines_loop (curlyState - 1) newlineFound rest
      else if curlyState = 1 then
        (if char = CHR ''\<newline>'' \<and> newlineFound then True
         else if char = CHR ''\<newline>'' then hasTopLevelBlankLines_loop curlyState True rest
         else if char \<noteq> CHR '' '' then hasTopLevelBlankLines_loop curlyState False rest
         else hasTopLevelBlankLines_loop curlyState newlineFound rest)
      else hasTopLevelBlankLines_loop curlyState newlineFound rest)"

definition hasTopLevelBlankLines :: "string \<Rightarrow> bool" where
  "hasTopLevelBlankLines source = hasTopLevelBlankLines_loop 0 False source"

text \<open>\<^verbatim>\<open>hasBlankLinesInBlock(node, options)\<close>: the scanner on the node's slice of
  the original text.\<close>

record options =
  originalText :: string
  locStart :: "jsval \<Rightarrow> nat"
  locEnd :: "jsval \<Rightarrow> nat"

definition slice :: "string \<Rightarrow> nat \<Rightarrow> nat \<Rightarrow> string" where
  "slice s from to = take (to - from) (drop from s)"

definition hasBlankLinesInBlock :: "jsval \<Rightarrow> options \<Rightarrow> bool" where
  "hasBlankLinesInBlock node options =
     hasTopLevelBlankLines
       (slice (originalText options) (locStart options node) (locEnd options node))"

section \<open>Simple interpolations: what the code accepts, and the specification's words\<close>

text \<open>
  The chain of an interpolated expression lists the expression, its object, the object
  of that, and so on down to the first node that is not a member access (the root).
  These are the values that \<^verbatim>\<open>head\<close> takes in the loop of
  \<^verbatim>\<open>isSimpleTemplateLiteral\<close>.
\<close>

lemma size_own_field_Obj: "size (own_field (Obj a fs) k) < size (Obj a fs)"
proof (cases "map_of fs k")
  case None
  then show ?thesis by simp
next
  case (Some v)
  then have "(k, v) \<in> set fs" by (rule map_of_SomeD)
  then have "size v < size_list (size_prod (\<lambda>x. 0) size) fs + 1"
    by (induction fs) auto
  with Some show ?thesis by simp
qed

definition isMemberAccess :: "jsval \<Rightarrow> bool" where
  "isMemberAccess e =
     (own_field e ''type'' = Str ''MemberExpression'' \<or>
      own_field e ''type'' = Str ''OptionalMemberExpression'')"

function accessChain :: "jsval \<Rightarrow> jsval list" where
  "accessChain e =
     (if isMemberAccess e then e # accessChain (own_field e ''object'') else [e])"
  by pat_completeness auto
termination
proof (relation "measure size")
  show "wf (measure size)" by simp
next
  fix e assume "isMemberAccess e"
  then obtain a fs where "e = Obj a fs"
    by (cases e) (auto simp: isMemberAccess_def)
  then show "(own_field e ''object'', e) \<in> measure size"
    using size_own_field_Obj [of a fs "''object''"] by simp
qed

declare accessChain.simps [simp del]

text \<open>A node is an identifier or \<^verbatim>\<open>this\<close>; a node has a comment attached (its
  \<^verbatim>\<open>comments\<close> field is set).\<close>

definition isIdentifierOrThis :: "jsval \<Rightarrow> bool" where
  "isIdentifierOrThis e =
     (own_field e ''type'' = Str ''Identifier'' \<or> own_field e ''type'' = Str ''ThisExpression'')"

definition hasComments :: "jsval \<Rightarrow> bool" where
  "hasComments e = truthy (own_field e ''comments'')"

text \<open>
  What the loop accepts, read off the code: the property of every member access has one
  of the four kinds the loop lists, the root is an identifier or \<^verbatim>\<open>this\<close>, and no
  node of the chain has a comment. The properties themselves are not tested for
  comments.
\<close>

definition propertyTagAccepted :: "jsval \<Rightarrow> bool" where
  "propertyTagAccepted e =
     (let t = own_field (own_field e ''property'') ''type''
      in t = Str ''Identifier'' \<or> t = Str ''Literal'' \<or> t = Str ''StringLiteral'' \<or>
         t = Str ''NumericLiteral'')"

definition acceptedInterpolation :: "jsval \<Rightarrow> bool" where
  "acceptedInterpolation e =
     (isIdentifierOrThis (last (accessChain e)) \<and>
      list_all propertyTagAccepted (butlast (accessChain e)) \<and>
      list_all (\<lambda>n. \<not> hasComments n) (accessChain e))"

text \<open>
  The specification's words: every property of the chain is an identifier or a literal
  key, the chain is rooted at an identifier or \<^verbatim>\<open>this\<close>, and no comment is attached
  to any node visited along the chain. A literal is a node of one of the literal kinds
  of either dialect. The nodes visited are the nodes of the chain and the properties
  read at its member accesses.
\<close>

definition isLiteralKey :: "jsval \<Rightarrow> bool" where
  "isLiteralKey p =
     (own_field p ''type'' = Str ''Literal'' \<or> own_field p ''type'' = Str ''StringLiteral'' \<or>
      own_field p ''type'' = Str ''NumericLiteral'' \<or>
      own_field p ''type'' = Str ''BooleanLiteral'' \<or>
      own_field p ''type'' = Str ''NullLiteral'' \<or>
      own_field p ''type'' = Str ''BigIntLiteral'' \<or>
      own_field p ''type'' = Str ''RegExpLiteral'')"

definition propertyIsKey :: "jsval \<Rightarrow> bool" where
  "propertyIsKey e =
     (own_field (own_field e ''property'') ''type'' = Str ''Identifier'' \<or>
      isLiteralKey (own_field e ''property''))"

definition visitedNodes :: "jsval \<Rightarrow> jsval list" where
  "visitedNodes e =
     accessChain e @ map (\<lambda>n. own_field n ''property'') (butlast (accessChain e))"

definition simpleInterpolation :: "jsval \<Rightarrow> bool" where
  "simpleInterpolation e =
     (isIdentifierOrThis (last (accessChain e)) \<and>
      list_all propertyIsKey (butlast (accessChain e)) \<and>
      list_all (\<lambda>n. \<not> hasComments n) (visitedNodes e))"

section \<open>Statement lists and blank lines, in the words of the specification\<close>

text \<open>A value is a node (an object). The statement container of a parent is its
  \<^verbatim>\<open>body\<close>, or its \<^verbatim>\<open>consequent\<close> when the body is not set.\<close>

definition isObject :: "jsval \<Rightarrow> bool" where
  "isObject v = (case v of Obj a fs \<Rightarrow> True | _ \<Rightarrow> False)"

definition statementContainer :: "jsval \<Rightarrow> jsval" where
  "statementContainer parent =
     (if truthy (own_field parent ''body'') then own_field parent ''body''
      else own_field parent ''consequent'')"

text \<open>
  The specification's blank line: two newline characters at brace nesting depth exactly 1
  with only space characters between them. The depth of a position is the number of
  opening braces before it minus the number of closing braces before it, so the outer
  brace is read at depth 0 and the block's own statements are at depth 1.
\<close>

definition braceDepth :: "string \<Rightarrow> nat \<Rightarrow> int" where
  "braceDepth s i =
     int (count_list (take i s) CHR ''{'') - int (count_list (take i s) CHR ''}'')"

definition blankLineAtDepthOne :: "string \<Rightarrow> bool" where
  "blankLineAtDepthOne s =
     list_ex (\<lambda>i. list_ex (\<lambda>j.
        i < j \<and> s ! i = CHR ''\<newline>'' \<and> s ! j = CHR ''\<newline>'' \<and>
        braceDepth s i = 1 \<and> braceDepth s j = 1 \<and>
        list_all (\<lambda>k. s ! k = CHR '' '') [Suc i..<j])
       [0..<length s]) [0..<length s]"

section \<open>Test calls: the shapes of the callee and of the arguments\<close>

text \<open>
  The shapes of the parts of a test call with two or three arguments, as descriptions of
  the tree, for comparison with the code.
  The names of a test declaration are the strings that the pattern
  \<^verbatim>\<open>/^(skip|[fx]?(it|describe|test))$/\<close> matches. A callee is such an identifier, or a
  member access \<^verbatim>\<open>.only\<close> or \<^verbatim>\<open>.skip\<close> on one; a title is a template literal or a
  string literal; a timeout is a numeric literal; an async wrapper is a call of
  \<^verbatim>\<open>async\<close>, \<^verbatim>\<open>inject\<close> or \<^verbatim>\<open>fakeAsync\<close>.
\<close>

definition unitTestNames :: "string list" where
  "unitTestNames =
     [''skip'', ''it'', ''describe'', ''test'', ''fit'', ''fdescribe'', ''ftest'',
      ''xit'', ''xdescribe'', ''xtest'']"

definition namedIdentifier :: "jsval \<Rightarrow> string list \<Rightarrow> bool" where
  "namedIdentifier v names =
     (own_field v ''type'' = Str ''Identifier'' \<and>
      list_ex (\<lambda>s. own_field v ''name'' = Str s) names)"

definition isTestCallee :: "jsval \<Rightarrow> bool" where
  "isTestCallee callee =
     (namedIdentifier callee unitTestNames \<or>
      (own_field callee ''type'' = Str ''MemberExpression'' \<or>
       own_field callee ''type'' = Str ''OptionalMemberExpression'') \<and>
      namedIdentifier (own_field callee ''object'') unitTestNames \<and>
      namedIdentifier (own_field callee ''property'') [''only'', ''skip''])"

definition isTestTitle :: "jsval \<Rightarrow> bool" where
  "isTestTitle a =
     (own_field a ''type'' = Str ''TemplateLiteral'' \<or>
      own_field a ''type'' = Str ''StringLiteral'' \<or>
      own_field a ''type'' = Str ''Literal'' \<and> is_string (own_field a ''value''))"

definition isTimeout :: "jsval \<Rightarrow> bool" where
  "isTimeout a =
     (own_field a ''type'' = Str ''NumericLiteral'' \<or>
      own_field a ''type'' = Str ''Literal'' \<and> is_number (own_field a ''value''))"

definition isAsyncWrapper :: "jsval \<Rightarrow> bool" where
  "isAsyncWrapper a =
     ((own_field a ''type'' = Str ''CallExpression'' \<or>
       own_field a ''type'' = Str ''OptionalCallExpression'') \<and>
      namedIdentifier (own_field a ''callee'') [''async'', ''inject'', ''fakeAsync''])"

text \<open>A callback is a function or arrow expression; it has a block body when it is a
  function expression or an arrow function whose body is a block; it has at most one
  parameter.\<close>

definition isFunctionOrArrow :: "jsval \<Rightarrow> bool" where
  "isFunctionOrArrow a =
     (own_field a ''type'' = Str ''FunctionExpression'' \<or>
      own_field a ''type'' = Str ''ArrowFunctionExpression'')"

definition hasBlockBody :: "jsval \<Rightarrow> bool" where
  "hasBlockBody a =
     (own_field a ''type'' = Str ''FunctionExpression'' \<or>
      own_field a ''type'' = Str ''ArrowFunctionExpression'' \<and>
      own_field (own_field a ''body'') ''type'' = Str ''BlockStatement'')"

definition atMostOneParam :: "jsval \<Rightarrow> bool" where
  "atMostOneParam a = (case own_field a ''params'' of Arr ps \<Rightarrow> length ps \<le> 1 | _ \<Rightarrow> False)"

section \<open>Example trees\<close>

text \<open>Builders for the nodes of the examples; the first argument is the address of the node.\<close>

definition mkIdentifier :: "nat \<Rightarrow> string \<Rightarrow> jsval" where
  "mkIdentifier a x = Obj a [(''type'', Str ''Identifier''), (''name'', Str x)]"

definition numericLiteral :: "nat \<Rightarrow> int \<Rightarrow> jsval" where
  "numericLiteral a n = Obj a [(''type'', Str ''NumericLiteral''), (''value'', Num n)]"

definition arrayExpression :: "nat \<Rightarrow> jsval list \<Rightarrow> jsval" where
  "arrayExpression a xs = Obj a [(''type'', Str ''ArrayExpression''), (''elements'', Arr xs)]"

definition objectExpression :: "nat \<Rightarrow> jsval list \<Rightarrow> jsval" where
  "objectExpression a ps = Obj a [(''type'', Str ''ObjectExpression''), (''properties'', Arr ps)]"

definition objectProperty :: "nat \<Rightarrow> bool \<Rightarrow> jsval \<Rightarrow> jsval \<Rightarrow> jsval" where
  "objectProperty a computed k v =
     Obj a [(''type'', Str ''ObjectProperty''), (''computed'', Bool computed),
            (''shorthand'', Bool False), (''key'', k), (''value'', v)]"

definition regexLiteral :: "nat \<Rightarrow> string \<Rightarrow> jsval" where
  "regexLiteral a p =
     Obj a [(''type'', Str ''Literal''),
            (''regex'', Obj (a + 1) [(''pattern'', Str p), (''flags'', Str [])])]"

definition callExpression :: "nat \<Rightarrow> jsval \<Rightarrow> jsval list \<Rightarrow> jsval" where
  "callExpression a callee args =
     Obj a [(''type'', Str ''CallExpression''), (''callee'', callee), (''arguments'', Arr args)]"

definition memberExpression :: "nat \<Rightarrow> jsval \<Rightarrow> jsval \<Rightarrow> jsval" where
  "memberExpression a ob pr =
     Obj a [(''type'', Str ''MemberExpression''), (''object'', ob), (''property'', pr),
            (''computed'', Bool False)]"

definition computedMemberExpression :: "nat \<Rightarrow> jsval \<Rightarrow> jsval \<Rightarrow> jsval" where
  "computedMemberExpression a ob pr =
     Obj a [(''type'', Str ''MemberExpression''), (''object'', ob), (''property'', pr),
            (''computed'', Bool True)]"

definition booleanLiteral :: "nat \<Rightarrow> bool \<Rightarrow> jsval" where
  "booleanLiteral a b = Obj a [(''type'', Str ''BooleanLiteral''), (''value'', Bool b)]"

definition literal :: "nat \<Rightarrow> jsval \<Rightarrow> jsval" where
  "literal a v = Obj a [(''type'', Str ''Literal''), (''value'', v)]"

text \<open>An identifier with a leading block comment attached; \<open>c\<close> is the address of the
  comment.\<close>

definition commentedIdentifier :: "nat \<Rightarrow> string \<Rightarrow> nat \<Rightarrow> string \<Rightarrow> jsval" where
  "commentedIdentifier a x c s =
     Obj a [(''type'', Str ''Identifier''), (''name'', Str x),
            (''comments'',
             Arr [Obj c [(''type'', Str ''CommentBlock''), (''value'', Str s),
                         (''leading'', Bool True), (''trailing'', Bool False)]])]"

text \<open>\<^verbatim>\<open>a./*c*/b\<close>: the comment is attached to the property \<^verbatim>\<open>b\<close>.\<close>

definition commentedProperty :: jsval where
  "commentedProperty =
     memberExpression 2 (mkIdentifier 3 ''a'') (commentedIdentifier 4 ''b'' 5 ''c'')"

definition templateLiteral :: "nat \<Rightarrow> jsval list \<Rightarrow> jsval" where
  "templateLiteral a es = Obj a [(''type'', Str ''TemplateLiteral''), (''expressions'', Arr es)]"

definition stringLiteral :: "nat \<Rightarrow> string \<Rightarrow> jsval" where
  "stringLiteral a s = Obj a [(''type'', Str ''StringLiteral''), (''value'', Str s)]"

definition regExpLiteral :: "nat \<Rightarrow> string \<Rightarrow> jsval" where
  "regExpLiteral a p =
     Obj a [(''type'', Str ''RegExpLiteral''), (''pattern'', Str p), (''flags'', Str [])]"

definition thisExpression :: "nat \<Rightarrow> jsval" where
  "thisExpression a = Obj a [(''type'', Str ''ThisExpression'')]"

definition expressionStatement :: "nat \<Rightarrow> jsval \<Rightarrow> jsval" where
  "expressionStatement a e = Obj a [(''type'', Str ''ExpressionStatement''), (''expression'', e)]"

definition emptyStatement :: "nat \<Rightarrow> jsval" where
  "emptyStatement a = Obj a [(''type'', Str ''EmptyStatement'')]"

definition blockStatement :: "nat \<Rightarrow> jsval list \<Rightarrow> jsval" where
  "blockStatement a stmts = Obj a [(''type'', Str ''BlockStatement''), (''body'', Arr stmts)]"

definition ifStatement :: "nat \<Rightarrow> jsval \<Rightarrow> jsval \<Rightarrow> jsval" where
  "ifStatement a test consequent =
     Obj a [(''type'', Str ''IfStatement''), (''test'', test), (''consequent'', consequent),
            (''alternate'', Null)]"

definition whileStatement :: "nat \<Rightarrow> jsval \<Rightarrow> jsval \<Rightarrow> jsval" where
  "whileStatement a test body =
     Obj a [(''type'', Str ''WhileStatement''), (''test'', test), (''body'', body)]"

definition switchCase :: "nat \<Rightarrow> jsval \<Rightarrow> jsval list \<Rightarrow> jsval" where
  "switchCase a test consequent =
     Obj a [(''type'', Str ''SwitchCase''), (''test'', test), (''consequent'', Arr consequent)]"

definition arrowFunctionExpression :: "nat \<Rightarrow> jsval list \<Rightarrow> jsval \<Rightarrow> jsval" where
  "arrowFunctionExpression a params body =
     Obj a [(''type'', Str ''ArrowFunctionExpression''), (''params'', Arr params),
            (''body'', body)]"

definition functionExpression :: "nat \<Rightarrow> jsval list \<Rightarrow> jsval \<Rightarrow> jsval" where
  "functionExpression a params body =
     Obj a [(''type'', Str ''FunctionExpression''), (''id'', Null), (''params'', Arr params),
            (''body'', body)]"

text \<open>Options for a node that spans the whole of a text.\<close>

definition wholeText :: "string \<Rightarrow> options" where
  "wholeText s = \<lparr>originalText = s, locStart = (\<lambda>node. 0), locEnd = (\<lambda>node. length s)\<rparr>"

text \<open>\<^verbatim>\<open>a::b\<close>, a bind expression with both an object and a callee.\<close>

definition bindExample :: jsval where
  "bindExample =
     Obj 1 [(''type'', Str ''BindExpression''),
            (''object'', mkIdentifier 2 ''a''),
            (''callee'', mkIdentifier 3 ''b'')]"

text \<open>A call expression that lacks its callee: no left-side field is present.\<close>

definition bareCall :: jsval where
  "bareCall = Obj 1 [(''type'', Str ''CallExpression'')]"

section \<open>Basic facts about the operations\<close>

lemma and_then_simps [simp]:
  "and_then (Inl e) f = Inl e"
  "and_then (Inr x) f = f x"
  by (simp_all add: and_then_def)

lemma and_also_simps [simp]:
  "and_also (Inl e) b = Inl e"
  "and_also (Inr True) b = b"
  "and_also (Inr False) b = Inr False"
  by (simp_all add: and_also_def)

lemma or_else_simps [simp]:
  "or_else (Inl e) b = Inl e"
  "or_else (Inr True) b = Inr True"
  "or_else (Inr False) b = b"
  by (simp_all add: or_else_def)

lemma get_simps [simp]:
  "get Undefined k = Inl TypeError"
  "get Null k = Inl TypeError"
  "get (Bool b) k = Inr Undefined"
  "get (Num n) k = Inr Undefined"
  "get (Str s) k = Inr (own_field (Str s) k)"
  "get (Arr xs) k = Inr (own_field (Arr xs) k)"
  "get (Obj a fs) k = Inr (own_field (Obj a fs) k)"
  by (simp_all add: get_def)

lemma js_or_simps [simp]:
  "js_or (Inl e) b = Inl e"
  "js_or (Inr x) b = (if truthy x then Inr x else b)"
  by (simp_all add: js_or_def)

lemma js_and_simps [simp]:
  "js_and (Inl e) b = Inl e"
  "js_and (Inr x) b = (if truthy x then b else Inr x)"
  by (simp_all add: js_and_def)

lemma and_then_Inr [simp]: "and_then r Inr = r"
  by (cases r) simp_all

lemma get_Inr_own_field: "get n k = Inr v \<Longrightarrow> get n k' = Inr (own_field n k')"
  by (auto simp: get_def split: if_splits)

lemma every_m_True_iff: "every_m f xs = Inr True \<longleftrightarrow> (\<forall>x\<in>set xs. f x = Inr True)"
proof (induction xs)
  case Nil
  show ?case by simp
next
  case (Cons x xs)
  show ?case
  proof (cases "f x")
    case (Inl e)
    then show ?thesis by simp
  next
    case (Inr b)
    with Cons show ?thesis by (cases b) simp_all
  qed
qed

lemma every_m_False:
  "(\<forall>x\<in>set xs. \<exists>b. f x = Inr b) \<Longrightarrow> (\<exists>x\<in>set xs. f x = Inr False) \<Longrightarrow> every_m f xs = Inr False"
proof (induction xs)
  case Nil
  then show ?case by simp
next
  case (Cons x xs)
  from Cons.prems(1) obtain b where b: "f x = Inr b" by auto
  show ?case
  proof (cases b)
    case True
    with b Cons show ?thesis by auto
  next
    case False
    with b show ?thesis by simp
  qed
qed

lemma every_m_first_False:
  "i < length xs \<Longrightarrow> f (xs ! i) = Inr False \<Longrightarrow> (\<forall>j<i. f (xs ! j) = Inr True)
   \<Longrightarrow> every_m f xs = Inr False"
proof (induction xs arbitrary: i)
  case Nil
  then show ?case by simp
next
  case (Cons x xs)
  show ?case
  proof (cases i)
    case 0
    with Cons.prems show ?thesis by simp
  next
    case (Suc k)
    with Cons.prems have "f x = Inr True" by auto
    moreover from Suc Cons.prems have "every_m f xs = Inr False"
      by (intro Cons.IH [of k]) auto
    ultimately show ?thesis by simp
  qed
qed

lemma every_m_not_True:
  "x \<in> set xs \<Longrightarrow> f x = Inr False \<Longrightarrow> every_m f xs \<noteq> Inr True"
  by (metis every_m_True_iff Inr_inject)

lemma or_else_False_right [simp]: "or_else a (Inr False) = a"
  by (cases a) (auto simp: or_else_def)

lemma type_is_get: "get node ''type'' = Inr (Str t) \<Longrightarrow> type_is node t' = Inr (t = t')"
  by (simp add: type_is_def)

lemma isLiteralLikeValue_array:
  assumes "get node ''type'' = Inr (Str ''ArrayExpression'')"
  shows "isLiteralLikeValue node =
         and_then (get node ''elements'')
           (js_every (\<lambda>element. and_also (Inr (element \<noteq> Null)) (isLiteralLikeValue element)))"
  by (subst isLiteralLikeValue.simps) (simp add: isLiteral_def type_is_get [OF assms])

lemma isLiteralLikeValue_object:
  assumes "get node ''type'' = Inr (Str ''ObjectExpression'')"
  shows "isLiteralLikeValue node =
         and_then (get node ''properties'')
           (js_every (\<lambda>property.
              and_then (get property ''computed'') (\<lambda>computed.
                if truthy computed then Inr False
                else and_then (get property ''value'') (\<lambda>v.
                  if truthy v then isLiteralLikeValue v else Inr False))))"
  by (subst isLiteralLikeValue.simps) (simp add: isLiteral_def type_is_get [OF assms])

lemma isLiteralLikeValue_identifier:
  assumes "get node ''type'' = Inr (Str ''Identifier'')"
  shows "isLiteralLikeValue node = and_then (get node ''name'') (regexp_test upperSnakeRe)"
proof -
  have "and_then (get node ''name'') (regexp_test upperSnakeRe) = Inr False \<Longrightarrow> ?thesis"
    by (subst isLiteralLikeValue.simps) (simp add: isLiteral_def type_is_get [OF assms])
  moreover have "and_then (get node ''name'') (regexp_test upperSnakeRe) \<noteq> Inr False \<Longrightarrow> ?thesis"
    by (subst isLiteralLikeValue.simps, cases "and_then (get node ''name'') (regexp_test upperSnakeRe)")
       (auto simp: isLiteral_def type_is_get [OF assms])
  ultimately show ?thesis by blast
qed

lemma isLiteralLikeValue_Null [simp]: "isLiteralLikeValue Null = Inl TypeError"
  by (subst isLiteralLikeValue.simps) (simp add: isLiteral_def type_is_def)

lemma get_truthy: "truthy v \<Longrightarrow> get v k = Inr (own_field v k)"
  by (cases v) simp_all

lemma and_also_True_iff: "and_also a b = Inr True \<longleftrightarrow> a = Inr True \<and> b = Inr True"
proof (cases a)
  case (Inl e)
  then show ?thesis by simp
next
  case (Inr x)
  then show ?thesis by (cases x) simp_all
qed

lemma or_else_True_iff:
  "or_else a b = Inr True \<longleftrightarrow> a = Inr True \<or> (a = Inr False \<and> b = Inr True)"
proof (cases a)
  case (Inl e)
  then show ?thesis by simp
next
  case (Inr x)
  then show ?thesis by (cases x) simp_all
qed

lemma js_every_Arr [simp]: "js_every f (Arr xs) = every_m f xs"
  by (simp add: js_every_def)

lemma or_else_Inr [simp]: "or_else (Inr a) (Inr b) = Inr (a \<or> b)"
  by (cases a) simp_all

lemma and_also_Inr [simp]: "and_also (Inr a) (Inr b) = Inr (a \<and> b)"
  by (cases a) simp_all

lemma get_nonnullish: "e \<noteq> Undefined \<Longrightarrow> e \<noteq> Null \<Longrightarrow> get e k = Inr (own_field e k)"
  by (simp add: get_def)

section \<open>The two left-side resolvers\<close>

text \<open>Wherever the path-returning resolver succeeds on a node that does not carry both
  a truthy \<^verbatim>\<open>object\<close> and a truthy \<^verbatim>\<open>callee\<close>, following its names reaches
  what the node-returning resolver returns.\<close>

lemma leftSide_resolvers_agree:
  assumes "getLeftSidePathName p n = Inr ns"
      and "\<not> (truthy (own_field n ''object'') \<and> truthy (own_field n ''callee''))"
  shows "follow n ns = getLeftSide n"
proof -
  from assms(1) have "n \<noteq> Undefined" "n \<noteq> Null"
    by (auto simp: getLeftSidePathName_def)
  then have g: "\<And>k. get n k = Inr (own_field n k)"
    by (simp add: get_def)
  show ?thesis
    using assms unfolding getLeftSidePathName_def getLeftSide_def
    by (auto simp: g split: if_splits)
qed

text \<open>
  C1. The claim: on every node where both resolvers succeed, \<^verbatim>\<open>getLeftSide\<close>
  returns the child reached by the names of \<^verbatim>\<open>getLeftSidePathName\<close>; in particular
  on a node with both an \<^verbatim>\<open>object\<close> and a \<^verbatim>\<open>callee\<close> they pick the same field.
  The code does not do this: \<^verbatim>\<open>getLeftSide\<close> tests \<^verbatim>\<open>callee\<close> before
  \<^verbatim>\<open>object\<close>, \<^verbatim>\<open>getLeftSidePathName\<close> tests \<^verbatim>\<open>object\<close> before
  \<^verbatim>\<open>callee\<close>. On the bind expression \<^verbatim>\<open>a::b\<close>, which has a naked left side,
  the node-returning resolver returns the callee \<^verbatim>\<open>b\<close> and the path-returning
  resolver names the object \<^verbatim>\<open>a\<close>.
\<close>

theorem leftSide_resolvers_differ_on_bind:
  "hasNakedLeftSide bindExample = Inr True
   \<and> getLeftSide bindExample = Inr (mkIdentifier 3 ''b'')
   \<and> getLeftSidePathName \<lparr>getParentNode = Null, getValue = bindExample\<rparr> bindExample
       = Inr [Key ''object'']
   \<and> follow bindExample [Key ''object''] = Inr (mkIdentifier 2 ''a'')
   \<and> mkIdentifier 2 ''a'' \<noteq> mkIdentifier 3 ''b''"
  by (simp add: hasNakedLeftSide_def getLeftSide_def getLeftSidePathName_def
      bindExample_def mkIdentifier_def type_is_def)

text \<open>
  C6. The claim: on a node with a naked left side on which none of the recognized
  left-side fields is present, both resolvers raise an error. This holds for the
  path-returning resolver only. The node-returning resolver is a chain of
  \<^verbatim>\<open>||\<close> with no \<^verbatim>\<open>throw\<close>: it returns the value of the last field,
  \<^verbatim>\<open>expression\<close>, which is \<^verbatim>\<open>undefined\<close> when the field is absent (its caller
  loops until the result is falsy). A field counts as present when its value is truthy,
  as both resolvers test it.
\<close>

theorem getLeftSide_returns_undefined_counterexample:
  "hasNakedLeftSide bareCall = Inr True \<and> getLeftSide bareCall = Inr Undefined"
  by (simp add: hasNakedLeftSide_def getLeftSide_def bareCall_def type_is_def)

theorem no_left_side_field:
  assumes "hasNakedLeftSide node = Inr True"
      and "\<not> truthy (own_field node ''expressions'')"
      and "\<not> truthy (own_field node ''left'')"
      and "\<not> truthy (own_field node ''test'')"
      and "\<not> truthy (own_field node ''callee'')"
      and "\<not> truthy (own_field node ''object'')"
      and "\<not> truthy (own_field node ''tag'')"
      and "\<not> truthy (own_field node ''argument'')"
      and "\<not> truthy (own_field node ''expression'')"
  shows "getLeftSidePathName path node = Inl (Error ''Unexpected node has no left side'')
         \<and> getLeftSide node = Inr (own_field node ''expression'')"
proof -
  from assms(1) have "node \<noteq> Undefined" "node \<noteq> Null"
    by (auto simp: hasNakedLeftSide_def type_is_def)
  then have g: "\<And>k. get node k = Inr (own_field node k)"
    by (simp add: get_def)
  show ?thesis
    using assms(2-) unfolding getLeftSidePathName_def getLeftSide_def
    by (simp add: g)
qed

theorem no_left_side_field_witness:
  "hasNakedLeftSide bareCall = Inr True
   \<and> getLeftSidePathName \<lparr>getParentNode = Null, getValue = bareCall\<rparr> bareCall
       = Inl (Error ''Unexpected node has no left side'')
   \<and> getLeftSide bareCall = Inr Undefined"
proof -
  have h: "hasNakedLeftSide bareCall = Inr True"
    by (simp add: hasNakedLeftSide_def bareCall_def type_is_def)
  from no_left_side_field [OF h, of "\<lparr>getParentNode = Null, getValue = bareCall\<rparr>"]
  show ?thesis
    using h by (simp add: bareCall_def)
qed

section \<open>Literal-like values\<close>

lemma isLiteralLikeValue_True_not_Null: "isLiteralLikeValue x = Inr True \<Longrightarrow> x \<noteq> Null"
  by auto

lemma array_of_literal_like:
  assumes "get node ''type'' = Inr (Str ''ArrayExpression'')"
      and "get node ''elements'' = Inr (Arr xs)"
      and "\<forall>x\<in>set xs. isLiteralLikeValue x = Inr True"
  shows "isLiteralLikeValue node = Inr True"
proof -
  have "every_m (\<lambda>element. and_also (Inr (element \<noteq> Null)) (isLiteralLikeValue element)) xs
        = Inr True"
    unfolding every_m_True_iff
  proof
    fix x assume "x \<in> set xs"
    with assms(3) have "isLiteralLikeValue x = Inr True" by blast
    moreover from this have "x \<noteq> Null" by auto
    ultimately show "and_also (Inr (x \<noteq> Null)) (isLiteralLikeValue x) = Inr True" by simp
  qed
  then show ?thesis
    by (simp add: isLiteralLikeValue_array [OF assms(1)] assms(2))
qed

lemma computed_key_object_not_literal_like:
  assumes "get ob ''type'' = Inr (Str ''ObjectExpression'')"
      and "get ob ''properties'' = Inr (Arr ps)"
      and "p \<in> set ps" and "get p ''computed'' = Inr c" and "truthy c"
      and "isLiteralLikeValue ob = Inr b"
  shows "b = False"
proof -
  let ?cb = "\<lambda>property.
              and_then (get property ''computed'') (\<lambda>computed.
                if truthy computed then Inr False
                else and_then (get property ''value'') (\<lambda>v.
                  if truthy v then isLiteralLikeValue v else Inr False))"
  have "?cb p = Inr False" using assms(4,5) by simp
  with assms(3) have "every_m ?cb ps \<noteq> Inr True"
    using every_m_not_True [of p ps ?cb] by simp
  moreover have "isLiteralLikeValue ob = every_m ?cb ps"
    by (simp add: isLiteralLikeValue_object [OF assms(1)] assms(2))
  ultimately show ?thesis using assms(6) by auto
qed

lemma array_with_computed_key_object:
  assumes "get node ''type'' = Inr (Str ''ArrayExpression'')"
      and "get node ''elements'' = Inr (Arr (xs[i := ob]))"
      and "i < length xs"
      and "\<forall>x\<in>set xs. isLiteralLikeValue x = Inr True"
      and "get ob ''type'' = Inr (Str ''ObjectExpression'')"
      and "get ob ''properties'' = Inr (Arr ps)"
      and "p \<in> set ps" and "get p ''computed'' = Inr c" and "truthy c"
      and "isLiteralLikeValue ob = Inr b"
  shows "isLiteralLikeValue node = Inr False"
proof -
  let ?cb = "\<lambda>element. and_also (Inr (element \<noteq> Null)) (isLiteralLikeValue element)"
  have "isLiteralLikeValue ob = Inr False"
    using computed_key_object_not_literal_like [OF assms(5-10)] assms(10) by simp
  moreover from assms(5) have "ob \<noteq> Null" by auto
  ultimately have at_i: "?cb (xs[i := ob] ! i) = Inr False"
    using assms(3) by simp
  have before: "\<forall>j<i. ?cb (xs[i := ob] ! j) = Inr True"
  proof (intro allI impI)
    fix j assume "j < i"
    with assms(3) have "xs[i := ob] ! j = xs ! j" and "xs ! j \<in> set xs" by auto
    moreover from this assms(4) have "isLiteralLikeValue (xs ! j) = Inr True" by blast
    moreover from this have "xs ! j \<noteq> Null" by auto
    ultimately show "?cb (xs[i := ob] ! j) = Inr True" by simp
  qed
  from assms(3) have "i < length (xs[i := ob])" by simp
  from every_m_first_False [of i "xs[i := ob]" ?cb, OF this at_i before]
  show ?thesis
    by (simp add: isLiteralLikeValue_array [OF assms(1)] assms(2))
qed

lemma identifier_literal_like:
  assumes "get node ''type'' = Inr (Str ''Identifier'')"
      and "get node ''name'' = Inr (Str s)"
  shows "isLiteralLikeValue node = Inr (s \<noteq> [] \<and> set s \<subseteq> set ''ABCDEFGHIJKLMNOPQRSTUVWXYZ_'')"
proof -
  have "upperSnakeRe s \<longleftrightarrow> s \<noteq> [] \<and> set s \<subseteq> set ''ABCDEFGHIJKLMNOPQRSTUVWXYZ_''"
    unfolding upperSnakeRe_def list_all_iff subset_iff Ball_def by (rule refl)
  then show ?thesis
    by (simp add: isLiteralLikeValue_identifier [OF assms(1)] assms(2) regexp_test_def)
qed

lemma upper_snake_identifier:
  assumes "get node ''type'' = Inr (Str ''Identifier'')"
      and "get node ''name'' = Inr (Str s)"
      and "s \<noteq> []" and "set s \<subseteq> set ''ABCDEFGHIJKLMNOPQRSTUVWXYZ_''"
  shows "isLiteralLikeValue node = Inr True"
proof -
  from assms(3,4) have "upperSnakeRe s"
    unfolding upperSnakeRe_def list_all_iff by (simp add: subset_iff)
  then show ?thesis
    by (simp add: isLiteralLikeValue_identifier [OF assms(1)] assms(2) regexp_test_def)
qed

lemma array_with_hole:
  assumes "get node ''type'' = Inr (Str ''ArrayExpression'')"
      and "get node ''elements'' = Inr (Arr xs)"
      and "Null \<in> set xs"
      and "\<forall>x\<in>set xs. x \<noteq> Null \<longrightarrow> (\<exists>b. isLiteralLikeValue x = Inr b)"
  shows "isLiteralLikeValue node = Inr False"
proof -
  let ?cb = "\<lambda>element. and_also (Inr (element \<noteq> Null)) (isLiteralLikeValue element)"
  have "\<forall>x\<in>set xs. \<exists>b. ?cb x = Inr b"
  proof
    fix x assume "x \<in> set xs"
    show "\<exists>b. ?cb x = Inr b"
    proof (cases "x = Null")
      case True
      then show ?thesis by auto
    next
      case False
      with \<open>x \<in> set xs\<close> assms(4) show ?thesis by simp
    qed
  qed
  moreover have "\<exists>x\<in>set xs. ?cb x = Inr False"
    using assms(3) by (intro bexI [of _ Null]) simp_all
  ultimately have "every_m ?cb xs = Inr False"
    using every_m_False [of xs ?cb] by simp
  then show ?thesis
    by (simp add: isLiteralLikeValue_array [OF assms(1)] assms(2))
qed

lemma empty_array_literal_like:
  assumes "get node ''type'' = Inr (Str ''ArrayExpression'')"
      and "get node ''elements'' = Inr (Arr [])"
  shows "isLiteralLikeValue node = Inr True"
  by (simp add: isLiteralLikeValue_array [OF assms(1)] assms(2))

lemma empty_object_literal_like:
  assumes "get node ''type'' = Inr (Str ''ObjectExpression'')"
      and "get node ''properties'' = Inr (Arr [])"
  shows "isLiteralLikeValue node = Inr True"
  by (simp add: isLiteralLikeValue_object [OF assms(1)] assms(2))

lemma isLiteralLikeValue_literal: "isLiteral node = Inr True \<Longrightarrow> isLiteralLikeValue node = Inr True"
  by (subst isLiteralLikeValue.simps) simp

lemma isLiteralLikeValue_numericLiteral [simp]:
  "isLiteralLikeValue (numericLiteral a n) = Inr True"
  by (rule isLiteralLikeValue_literal) (simp add: isLiteral_def type_is_def numericLiteral_def)

text \<open>
  C9. The claim: literal-likeness is closed under nesting and destroyed by computed keys,
  and screaming-snake-case identifiers count as literal-like base cases. The two parts on
  nesting hold. The last fails: the code tests the name against \<^verbatim>\<open>/^[A-Z_]+$/\<close>,
  which has no digits, so the screaming-snake-case name \<^verbatim>\<open>MAX_SIZE_2\<close> is not
  literal-like.
\<close>

theorem screaming_snake_with_digit_counterexample:
  "isLiteralLikeValue (mkIdentifier 1 ''MAX_SIZE_2'') = Inr False"
  using isLiteralLikeValue_identifier [of "mkIdentifier 1 ''MAX_SIZE_2''"]
  by (simp add: mkIdentifier_def regexp_test_def upperSnakeRe_def)

text \<open>
  C9 as amended: literal-likeness is closed under nesting and destroyed by computed
  keys. An array expression whose elements are all literal-like is literal-like. When one
  element of such an array is replaced by an object expression that has a property with a
  computed key (and on which the classifier returns), the array is not literal-like. An
  identifier is literal-like iff its name is not empty and consists only of capital
  letters and underscores, the names that the pattern \<^verbatim>\<open>/^[A-Z_]+$/\<close> accepts; a
  screaming-snake-case name with a digit is not literal-like.
\<close>

theorem literal_like_nesting:
  "(\<forall>node xs.
      get node ''type'' = Inr (Str ''ArrayExpression'') \<longrightarrow>
      get node ''elements'' = Inr (Arr xs) \<longrightarrow>
      (\<forall>x\<in>set xs. isLiteralLikeValue x = Inr True) \<longrightarrow>
      isLiteralLikeValue node = Inr True)
   \<and> (\<forall>node xs i ob ps p c b.
      get node ''type'' = Inr (Str ''ArrayExpression'') \<longrightarrow>
      get node ''elements'' = Inr (Arr (xs[i := ob])) \<longrightarrow>
      i < length xs \<longrightarrow>
      (\<forall>x\<in>set xs. isLiteralLikeValue x = Inr True) \<longrightarrow>
      get ob ''type'' = Inr (Str ''ObjectExpression'') \<longrightarrow>
      get ob ''properties'' = Inr (Arr ps) \<longrightarrow>
      p \<in> set ps \<longrightarrow> get p ''computed'' = Inr c \<longrightarrow> truthy c \<longrightarrow>
      isLiteralLikeValue ob = Inr b \<longrightarrow>
      isLiteralLikeValue node = Inr False)
   \<and> (\<forall>node s.
      get node ''type'' = Inr (Str ''Identifier'') \<longrightarrow>
      get node ''name'' = Inr (Str s) \<longrightarrow>
      isLiteralLikeValue node
      = Inr (s \<noteq> [] \<and> set s \<subseteq> set ''ABCDEFGHIJKLMNOPQRSTUVWXYZ_''))"
proof (intro conjI allI impI)
  fix node xs
  assume "get node ''type'' = Inr (Str ''ArrayExpression'')"
    "get node ''elements'' = Inr (Arr xs)"
    "\<forall>x\<in>set xs. isLiteralLikeValue x = Inr True"
  then show "isLiteralLikeValue node = Inr True"
    by (rule array_of_literal_like)
next
  fix node xs i ob ps p c b
  assume "get node ''type'' = Inr (Str ''ArrayExpression'')"
    "get node ''elements'' = Inr (Arr (xs[i := ob]))"
    "i < length xs"
    "\<forall>x\<in>set xs. isLiteralLikeValue x = Inr True"
    "get ob ''type'' = Inr (Str ''ObjectExpression'')"
    "get ob ''properties'' = Inr (Arr ps)"
    "p \<in> set ps" "get p ''computed'' = Inr c" "truthy c"
    "isLiteralLikeValue ob = Inr b"
  then show "isLiteralLikeValue node = Inr False"
    by (rule array_with_computed_key_object)
next
  fix node s
  assume "get node ''type'' = Inr (Str ''Identifier'')"
    "get node ''name'' = Inr (Str s)"
  then show "isLiteralLikeValue node
             = Inr (s \<noteq> [] \<and> set s \<subseteq> set ''ABCDEFGHIJKLMNOPQRSTUVWXYZ_'')"
    by (rule identifier_literal_like)
qed

theorem literal_like_nesting_witness:
  "isLiteralLikeValue (mkIdentifier 3 ''MAX_SIZE'') = Inr True
   \<and> isLiteralLikeValue (mkIdentifier 8 ''HTTP2'') = Inr False
   \<and> isLiteralLikeValue
        (arrayExpression 1 [numericLiteral 2 1, mkIdentifier 3 ''MAX_SIZE'']) = Inr True
   \<and> isLiteralLikeValue
        (arrayExpression 1
           [objectExpression 4 [objectProperty 5 True (mkIdentifier 6 ''k'') (numericLiteral 7 2)],
            mkIdentifier 3 ''MAX_SIZE'']) = Inr False"
proof -
  let ?id = "mkIdentifier 3 ''MAX_SIZE''"
  let ?xs = "[numericLiteral 2 1, ?id]"
  let ?p = "objectProperty 5 True (mkIdentifier 6 ''k'') (numericLiteral 7 2)"
  let ?ob = "objectExpression 4 [?p]"
  have idn: "isLiteralLikeValue ?id = Inr True"
    using literal_like_nesting [THEN conjunct2, THEN conjunct2, rule_format, of ?id "''MAX_SIZE''"]
    by (simp add: mkIdentifier_def)
  have digit: "isLiteralLikeValue (mkIdentifier 8 ''HTTP2'') = Inr False"
    using literal_like_nesting [THEN conjunct2, THEN conjunct2, rule_format,
        of "mkIdentifier 8 ''HTTP2''" "''HTTP2''"]
    by (simp add: mkIdentifier_def)
  from idn have all: "\<forall>x\<in>set ?xs. isLiteralLikeValue x = Inr True"
    by simp
  have arr: "isLiteralLikeValue (arrayExpression 1 ?xs) = Inr True"
    using literal_like_nesting [THEN conjunct1, rule_format, of "arrayExpression 1 ?xs" ?xs] all
    by (simp add: arrayExpression_def)
  have ob: "isLiteralLikeValue ?ob = Inr False"
    by (subst isLiteralLikeValue.simps)
       (simp add: isLiteral_def type_is_def objectExpression_def objectProperty_def)
  have "isLiteralLikeValue (arrayExpression 1 (?xs[0 := ?ob])) = Inr False"
    using literal_like_nesting [THEN conjunct2, THEN conjunct1, rule_format,
        of "arrayExpression 1 (?xs[0 := ?ob])" ?xs 0 ?ob "[?p]" ?p "Bool True" False] all ob
    by (simp add: arrayExpression_def objectExpression_def objectProperty_def)
  with idn digit arr show ?thesis by simp
qed

text \<open>
  C10. An array expression with a hole (a \<^verbatim>\<open>null\<close> entry among its elements) is not
  literal-like, whatever the classifier returns on its other elements, and so also when
  they are all literal-like. An array expression with no elements and an object
  expression with no properties are literal-like.
\<close>

theorem array_holes_and_empty_containers:
  "(\<forall>node xs.
      get node ''type'' = Inr (Str ''ArrayExpression'') \<longrightarrow>
      get node ''elements'' = Inr (Arr xs) \<longrightarrow>
      Null \<in> set xs \<longrightarrow>
      (\<forall>x\<in>set xs. x \<noteq> Null \<longrightarrow> (\<exists>b. isLiteralLikeValue x = Inr b)) \<longrightarrow>
      isLiteralLikeValue node = Inr False)
   \<and> (\<forall>node.
      get node ''type'' = Inr (Str ''ArrayExpression'') \<longrightarrow>
      get node ''elements'' = Inr (Arr []) \<longrightarrow>
      isLiteralLikeValue node = Inr True)
   \<and> (\<forall>node.
      get node ''type'' = Inr (Str ''ObjectExpression'') \<longrightarrow>
      get node ''properties'' = Inr (Arr []) \<longrightarrow>
      isLiteralLikeValue node = Inr True)"
proof (intro conjI allI impI)
  fix node xs
  assume "get node ''type'' = Inr (Str ''ArrayExpression'')"
    "get node ''elements'' = Inr (Arr xs)" "Null \<in> set xs"
    "\<forall>x\<in>set xs. x \<noteq> Null \<longrightarrow> (\<exists>b. isLiteralLikeValue x = Inr b)"
  then show "isLiteralLikeValue node = Inr False"
    by (rule array_with_hole)
next
  fix node
  assume "get node ''type'' = Inr (Str ''ArrayExpression'')"
    "get node ''elements'' = Inr (Arr [])"
  then show "isLiteralLikeValue node = Inr True"
    by (rule empty_array_literal_like)
next
  fix node
  assume "get node ''type'' = Inr (Str ''ObjectExpression'')"
    "get node ''properties'' = Inr (Arr [])"
  then show "isLiteralLikeValue node = Inr True"
    by (rule empty_object_literal_like)
qed

theorem array_holes_and_empty_containers_witness:
  "isLiteralLikeValue (arrayExpression 1 [numericLiteral 2 1, Null, numericLiteral 3 2]) = Inr False
   \<and> isLiteralLikeValue (arrayExpression 1 []) = Inr True
   \<and> isLiteralLikeValue (objectExpression 1 []) = Inr True"
proof -
  let ?xs = "[numericLiteral 2 1, Null, numericLiteral 3 2]"
  have "isLiteralLikeValue (arrayExpression 1 ?xs) = Inr False"
    by (rule array_holes_and_empty_containers
          [THEN conjunct1, rule_format, of "arrayExpression 1 ?xs" ?xs])
       (auto simp add: arrayExpression_def)
  moreover have "isLiteralLikeValue (arrayExpression 1 []) = Inr True"
    using array_holes_and_empty_containers
      [THEN conjunct2, THEN conjunct1, rule_format, of "arrayExpression 1 []"]
    by (simp add: arrayExpression_def)
  moreover have "isLiteralLikeValue (objectExpression 1 []) = Inr True"
    using array_holes_and_empty_containers
      [THEN conjunct2, THEN conjunct2, rule_format, of "objectExpression 1 []"]
    by (simp add: objectExpression_def)
  ultimately show ?thesis by simp
qed

section \<open>Simple call arguments: the depth budget\<close>

lemma isSimpleCallArgument_cutoff: "3 \<le> d \<Longrightarrow> isSimpleCallArgument x d = Inr False"
  by (subst isSimpleCallArgument.simps) simp

lemma isSimpleCallArgument_call:
  assumes "d < 3" and "get node ''type'' = Inr (Str t)"
      and "t = ''CallExpression'' \<or> t = ''OptionalCallExpression'' \<or> t = ''NewExpression''"
  shows "isSimpleCallArgument node d =
           and_also (and_then (get node ''callee'') (\<lambda>c. isSimpleCallArgument c (d + 1)))
                    (and_then (get node ''arguments'')
                       (js_every (\<lambda>x. isSimpleCallArgument x (d + 2))))"
  using assms(3)
proof (elim disjE)
  assume "t = ''CallExpression''"
  with assms(2) have "get node ''type'' = Inr (Str ''CallExpression'')" by simp
  with assms(1) show ?thesis
    by (subst isSimpleCallArgument.simps) (simp add: type_is_def)
next
  assume "t = ''OptionalCallExpression''"
  with assms(2) have "get node ''type'' = Inr (Str ''OptionalCallExpression'')" by simp
  with assms(1) show ?thesis
    by (subst isSimpleCallArgument.simps) (simp add: type_is_def)
next
  assume "t = ''NewExpression''"
  with assms(2) have "get node ''type'' = Inr (Str ''NewExpression'')" by simp
  with assms(1) show ?thesis
    by (subst isSimpleCallArgument.simps) (simp add: type_is_def)
qed

lemma isSimpleCallArgument_member:
  assumes "d < 3" and "get node ''type'' = Inr (Str t)"
      and "t = ''MemberExpression'' \<or> t = ''OptionalMemberExpression''"
  shows "isSimpleCallArgument node d =
           and_also (and_then (get node ''object'') (\<lambda>ob. isSimpleCallArgument ob (d + 1)))
                    (and_then (get node ''property'') (\<lambda>pr. isSimpleCallArgument pr (d + 1)))"
  by (insert assms, elim disjE; (subst isSimpleCallArgument.simps, simp add: type_is_def))

lemma isSimpleCallArgument_template:
  assumes "d < 3" and "get node ''type'' = Inr (Str ''TemplateLiteral'')"
  shows "isSimpleCallArgument node d =
           and_then (get node ''expressions'')
             (js_every (\<lambda>x. isSimpleCallArgument x (d + 2)))"
  using assms(1) by (subst isSimpleCallArgument.simps) (simp add: type_is_def assms(2))

lemma isSimpleCallArgument_object:
  assumes "d < 3" and "get node ''type'' = Inr (Str ''ObjectExpression'')"
  shows "isSimpleCallArgument node d =
           and_then (get node ''properties'')
            (js_every (\<lambda>p.
               and_then (get p ''computed'') (\<lambda>computed.
               if truthy computed then Inr False
               else and_then (get p ''shorthand'') (\<lambda>shorthand.
               if truthy shorthand then Inr True
               else and_then (get p ''value'') (\<lambda>v.
               if truthy v then isSimpleCallArgument v (d + 2) else Inr False)))))"
  using assms(1) by (subst isSimpleCallArgument.simps) (simp add: type_is_def assms(2))

lemma isSimpleCallArgument_array:
  assumes "d < 3" and "get node ''type'' = Inr (Str ''ArrayExpression'')"
  shows "isSimpleCallArgument node d =
           and_then (get node ''elements'')
             (js_every (\<lambda>x. or_else (Inr (x = Null)) (isSimpleCallArgument x (d + 2))))"
  using assms(1) by (subst isSimpleCallArgument.simps) (simp add: type_is_def assms(2))

lemma isSimpleCallArgument_plain:
  assumes "d < 3" and "get node ''type'' = Inr (Str t)"
      and "t = ''BigIntLiteral'' \<or> t = ''BooleanLiteral'' \<or> t = ''NullLiteral'' \<or>
           t = ''NumericLiteral'' \<or> t = ''StringLiteral'' \<or> t = ''Identifier''"
  shows "isSimpleCallArgument node d = Inr True"
  by (insert assms, elim disjE; (subst isSimpleCallArgument.simps, simp add: type_is_def))

lemma isSimpleCallArgument_Literal:
  assumes "d < 3" and "get node ''type'' = Inr (Str ''Literal'')"
      and "\<not> truthy (own_field node ''regex'') \<or>
           (\<exists>p. own_field (own_field node ''regex'') ''pattern'' = Str p \<and> length p \<le> 5)"
  shows "isSimpleCallArgument node d = Inr True"
proof -
  have g: "\<And>k. get node k = Inr (own_field node k)"
    using assms(2) by (rule get_Inr_own_field)
  with assms(2) have ty: "own_field node ''type'' = Str ''Literal''" by simp
  show ?thesis
  proof (cases "truthy (own_field node ''regex'')")
    case False
    with assms(1) show ?thesis
      by (subst isSimpleCallArgument.simps) (simp add: type_is_def g ty)
  next
    case True
    with assms(3) obtain p
      where p: "own_field (own_field node ''regex'') ''pattern'' = Str p" "length p \<le> 5"
      by blast
    from True have r: "get (own_field node ''regex'') ''pattern'' = Inr (Str p)"
      by (simp add: get_truthy p)
    from assms(1) True p(2) show ?thesis
      by (subst isSimpleCallArgument.simps) (simp add: type_is_def g ty r js_gt_def)
  qed
qed

lemma isSimpleCallArgument_RegExpLiteral:
  assumes "d < 3" and "get node ''type'' = Inr (Str ''RegExpLiteral'')"
      and "own_field node ''pattern'' = Str p" and "length p \<le> 5"
  shows "isSimpleCallArgument node d = Inr True"
proof -
  have g: "\<And>k. get node k = Inr (own_field node k)"
    using assms(2) by (rule get_Inr_own_field)
  with assms(2) have ty: "own_field node ''type'' = Str ''RegExpLiteral''" by simp
  from assms(1,4) show ?thesis
    by (subst isSimpleCallArgument.simps) (simp add: type_is_def g ty assms(3) js_gt_def)
qed

lemma long_regex: "isSimpleCallArgument (regexLiteral 1 ''[a-z]+'') 0 = Inr False"
  by (subst isSimpleCallArgument.simps) (simp add: type_is_def regexLiteral_def js_gt_def)

lemma call_iff:
  assumes "d < 3" and "get node ''type'' = Inr (Str t)"
      and "t = ''CallExpression'' \<or> t = ''OptionalCallExpression'' \<or> t = ''NewExpression''"
      and "get node ''arguments'' = Inr (Arr args)"
  shows "isSimpleCallArgument node d = Inr True \<longleftrightarrow>
           isSimpleCallArgument (own_field node ''callee'') (d + 1) = Inr True \<and>
           (\<forall>a\<in>set args. isSimpleCallArgument a (d + 2) = Inr True)"
proof -
  have g: "get node ''callee'' = Inr (own_field node ''callee'')"
    using assms(2) by (rule get_Inr_own_field)
  show ?thesis
    by (simp add: isSimpleCallArgument_call [OF assms(1-3)] g assms(4)
        and_also_True_iff every_m_True_iff)
qed

lemma member_iff:
  assumes "d < 3" and "get node ''type'' = Inr (Str t)"
      and "t = ''MemberExpression'' \<or> t = ''OptionalMemberExpression''"
  shows "isSimpleCallArgument node d = Inr True \<longleftrightarrow>
           isSimpleCallArgument (own_field node ''object'') (d + 1) = Inr True \<and>
           isSimpleCallArgument (own_field node ''property'') (d + 1) = Inr True"
proof -
  have g: "\<And>k. get node k = Inr (own_field node k)"
    using assms(2) by (rule get_Inr_own_field)
  show ?thesis
    by (simp add: isSimpleCallArgument_member [OF assms(1-3)] g and_also_True_iff)
qed

lemma template_iff:
  assumes "d < 3" and "get node ''type'' = Inr (Str ''TemplateLiteral'')"
      and "get node ''expressions'' = Inr (Arr es)"
  shows "isSimpleCallArgument node d = Inr True \<longleftrightarrow>
           (\<forall>e\<in>set es. isSimpleCallArgument e (d + 2) = Inr True)"
  by (simp add: isSimpleCallArgument_template [OF assms(1,2)] assms(3) every_m_True_iff)

lemma array_iff:
  assumes "d < 3" and "get node ''type'' = Inr (Str ''ArrayExpression'')"
      and "get node ''elements'' = Inr (Arr xs)"
  shows "isSimpleCallArgument node d = Inr True \<longleftrightarrow>
           (\<forall>x\<in>set xs. x = Null \<or> isSimpleCallArgument x (d + 2) = Inr True)"
  by (auto simp add: isSimpleCallArgument_array [OF assms(1,2)] assms(3) every_m_True_iff
      or_else_True_iff)

lemma property_simple_iff:
  "and_then (get p ''computed'') (\<lambda>computed.
     if truthy computed then Inr False
     else and_then (get p ''shorthand'') (\<lambda>shorthand.
     if truthy shorthand then Inr True
     else and_then (get p ''value'') (\<lambda>v.
     if truthy v then isSimpleCallArgument v d else Inr False))) = Inr True
   \<longleftrightarrow>
     p \<noteq> Undefined \<and> p \<noteq> Null \<and> \<not> truthy (own_field p ''computed'') \<and>
     (truthy (own_field p ''shorthand'') \<or>
      truthy (own_field p ''value'') \<and>
      isSimpleCallArgument (own_field p ''value'') d = Inr True)"
  by (simp add: get_def)

lemma object_iff:
  assumes "d < 3" and "get node ''type'' = Inr (Str ''ObjectExpression'')"
      and "get node ''properties'' = Inr (Arr ps)"
  shows "isSimpleCallArgument node d = Inr True \<longleftrightarrow>
           (\<forall>p\<in>set ps.
              p \<noteq> Undefined \<and> p \<noteq> Null \<and> \<not> truthy (own_field p ''computed'') \<and>
              (truthy (own_field p ''shorthand'') \<or>
               truthy (own_field p ''value'') \<and>
               isSimpleCallArgument (own_field p ''value'') (d + 2) = Inr True))"
  by (simp only: isSimpleCallArgument_object [OF assms(1,2)] assms(3) and_then_simps
      js_every_Arr every_m_True_iff property_simple_iff)

lemma truthy_builders [simp]:
  "truthy (mkIdentifier a x)" "truthy (numericLiteral a n)"
  by (simp_all add: mkIdentifier_def numericLiteral_def)

lemma isSimpleCallArgument_mkIdentifier [simp]:
  "isSimpleCallArgument (mkIdentifier a x) d = Inr (d < 3)"
proof (cases "d < 3")
  case True
  then show ?thesis
    using isSimpleCallArgument_plain [of d "mkIdentifier a x" "''Identifier''"]
    by (simp add: mkIdentifier_def)
next
  case False
  then show ?thesis by (simp add: isSimpleCallArgument_cutoff)
qed

lemma isSimpleCallArgument_numericLiteral [simp]:
  "isSimpleCallArgument (numericLiteral a n) d = Inr (d < 3)"
proof (cases "d < 3")
  case True
  then show ?thesis
    using isSimpleCallArgument_plain [of d "numericLiteral a n" "''NumericLiteral''"]
    by (simp add: numericLiteral_def)
next
  case False
  then show ?thesis by (simp add: isSimpleCallArgument_cutoff)
qed

lemma isSimpleCallArgument_callExpression:
  "d < 3 \<Longrightarrow> isSimpleCallArgument (callExpression a c args) d =
     and_also (isSimpleCallArgument c (d + 1))
              (every_m (\<lambda>x. isSimpleCallArgument x (d + 2)) args)"
  using isSimpleCallArgument_call [of d "callExpression a c args" "''CallExpression''"]
  by (simp add: callExpression_def)

lemma simple_call_example:
  "isSimpleCallArgument
     (callExpression 1 (mkIdentifier 2 ''foo'') [mkIdentifier 3 ''a'', mkIdentifier 4 ''b'']) 0
   = Inr True"
  by (simp add: isSimpleCallArgument_callExpression)

lemma nested_call_example:
  "isSimpleCallArgument
     (callExpression 1 (mkIdentifier 2 ''foo'')
        [callExpression 3 (mkIdentifier 4 ''bar'')
           [callExpression 5 (mkIdentifier 6 ''baz'') [mkIdentifier 7 ''qux'']]]) 0
   = Inr False"
  by (simp add: isSimpleCallArgument_callExpression)

text \<open>
  C3. The depth costing of \<^verbatim>\<open>isSimpleCallArgument\<close>, at every depth below 3. A call,
  optional call or new expression (with its list of arguments) is simple iff its callee
  is simple at depth + 1 and every argument is simple at depth + 2. A member or optional
  member expression is simple iff its object and its property are simple at depth + 1.
  A template literal is simple iff every interpolated expression is simple at depth + 2;
  an object expression iff every property is not computed and is shorthand or has a
  value that is simple at depth + 2; an array expression iff every element is
  \<^verbatim>\<open>null\<close> or simple at depth + 2. So \<^verbatim>\<open>foo(a, b)\<close> is simple at depth 0 and
  \<^verbatim>\<open>foo(bar(baz(qux)))\<close> is not.
\<close>

theorem asymmetric_depth_costing:
  "(\<forall>node d t args.
      d < 3 \<longrightarrow> get node ''type'' = Inr (Str t) \<longrightarrow>
      t = ''CallExpression'' \<or> t = ''OptionalCallExpression'' \<or> t = ''NewExpression'' \<longrightarrow>
      get node ''arguments'' = Inr (Arr args) \<longrightarrow>
      (isSimpleCallArgument node d = Inr True \<longleftrightarrow>
         isSimpleCallArgument (own_field node ''callee'') (d + 1) = Inr True \<and>
         (\<forall>a\<in>set args. isSimpleCallArgument a (d + 2) = Inr True)))
   \<and> (\<forall>node d t.
      d < 3 \<longrightarrow> get node ''type'' = Inr (Str t) \<longrightarrow>
      t = ''MemberExpression'' \<or> t = ''OptionalMemberExpression'' \<longrightarrow>
      (isSimpleCallArgument node d = Inr True \<longleftrightarrow>
         isSimpleCallArgument (own_field node ''object'') (d + 1) = Inr True \<and>
         isSimpleCallArgument (own_field node ''property'') (d + 1) = Inr True))
   \<and> (\<forall>node d es.
      d < 3 \<longrightarrow> get node ''type'' = Inr (Str ''TemplateLiteral'') \<longrightarrow>
      get node ''expressions'' = Inr (Arr es) \<longrightarrow>
      (isSimpleCallArgument node d = Inr True \<longleftrightarrow>
         (\<forall>e\<in>set es. isSimpleCallArgument e (d + 2) = Inr True)))
   \<and> (\<forall>node d ps.
      d < 3 \<longrightarrow> get node ''type'' = Inr (Str ''ObjectExpression'') \<longrightarrow>
      get node ''properties'' = Inr (Arr ps) \<longrightarrow>
      (isSimpleCallArgument node d = Inr True \<longleftrightarrow>
         (\<forall>p\<in>set ps.
            p \<noteq> Undefined \<and> p \<noteq> Null \<and> \<not> truthy (own_field p ''computed'') \<and>
            (truthy (own_field p ''shorthand'') \<or>
             truthy (own_field p ''value'') \<and>
             isSimpleCallArgument (own_field p ''value'') (d + 2) = Inr True))))
   \<and> (\<forall>node d xs.
      d < 3 \<longrightarrow> get node ''type'' = Inr (Str ''ArrayExpression'') \<longrightarrow>
      get node ''elements'' = Inr (Arr xs) \<longrightarrow>
      (isSimpleCallArgument node d = Inr True \<longleftrightarrow>
         (\<forall>x\<in>set xs. x = Null \<or> isSimpleCallArgument x (d + 2) = Inr True)))
   \<and> isSimpleCallArgument
        (callExpression 1 (mkIdentifier 2 ''foo'') [mkIdentifier 3 ''a'', mkIdentifier 4 ''b'']) 0
      = Inr True
   \<and> isSimpleCallArgument
        (callExpression 1 (mkIdentifier 2 ''foo'')
           [callExpression 3 (mkIdentifier 4 ''bar'')
              [callExpression 5 (mkIdentifier 6 ''baz'') [mkIdentifier 7 ''qux'']]]) 0
      = Inr False"
proof (intro conjI allI impI)
  fix node and d :: int and t args
  assume "d < 3" "get node ''type'' = Inr (Str t)"
    "t = ''CallExpression'' \<or> t = ''OptionalCallExpression'' \<or> t = ''NewExpression''"
    "get node ''arguments'' = Inr (Arr args)"
  then show "isSimpleCallArgument node d = Inr True \<longleftrightarrow>
         isSimpleCallArgument (own_field node ''callee'') (d + 1) = Inr True \<and>
         (\<forall>a\<in>set args. isSimpleCallArgument a (d + 2) = Inr True)"
    by (rule call_iff)
next
  fix node and d :: int and t
  assume "d < 3" "get node ''type'' = Inr (Str t)"
    "t = ''MemberExpression'' \<or> t = ''OptionalMemberExpression''"
  then show "isSimpleCallArgument node d = Inr True \<longleftrightarrow>
         isSimpleCallArgument (own_field node ''object'') (d + 1) = Inr True \<and>
         isSimpleCallArgument (own_field node ''property'') (d + 1) = Inr True"
    by (rule member_iff)
next
  fix node and d :: int and es
  assume "d < 3" "get node ''type'' = Inr (Str ''TemplateLiteral'')"
    "get node ''expressions'' = Inr (Arr es)"
  then show "isSimpleCallArgument node d = Inr True \<longleftrightarrow>
         (\<forall>e\<in>set es. isSimpleCallArgument e (d + 2) = Inr True)"
    by (rule template_iff)
next
  fix node and d :: int and ps
  assume "d < 3" "get node ''type'' = Inr (Str ''ObjectExpression'')"
    "get node ''properties'' = Inr (Arr ps)"
  then show "isSimpleCallArgument node d = Inr True \<longleftrightarrow>
         (\<forall>p\<in>set ps.
            p \<noteq> Undefined \<and> p \<noteq> Null \<and> \<not> truthy (own_field p ''computed'') \<and>
            (truthy (own_field p ''shorthand'') \<or>
             truthy (own_field p ''value'') \<and>
             isSimpleCallArgument (own_field p ''value'') (d + 2) = Inr True))"
    by (rule object_iff)
next
  fix node and d :: int and xs
  assume "d < 3" "get node ''type'' = Inr (Str ''ArrayExpression'')"
    "get node ''elements'' = Inr (Arr xs)"
  then show "isSimpleCallArgument node d = Inr True \<longleftrightarrow>
         (\<forall>x\<in>set xs. x = Null \<or> isSimpleCallArgument x (d + 2) = Inr True)"
    by (rule array_iff)
qed (rule simple_call_example nested_call_example)+

theorem asymmetric_depth_costing_witness:
  "isSimpleCallArgument (callExpression 1 (mkIdentifier 2 ''f'') [mkIdentifier 3 ''a'']) 0 = Inr True
   \<and> isSimpleCallArgument (memberExpression 1 (mkIdentifier 2 ''a'') (mkIdentifier 3 ''b'')) 1
       = Inr True
   \<and> isSimpleCallArgument (memberExpression 1 (mkIdentifier 2 ''a'') (mkIdentifier 3 ''b'')) 2
       \<noteq> Inr True
   \<and> isSimpleCallArgument (templateLiteral 1 [mkIdentifier 2 ''a'']) 0 = Inr True
   \<and> isSimpleCallArgument (templateLiteral 1 [mkIdentifier 2 ''a'']) 1 \<noteq> Inr True
   \<and> isSimpleCallArgument
        (objectExpression 1 [objectProperty 2 False (mkIdentifier 3 ''k'') (numericLiteral 4 1)]) 0
       = Inr True
   \<and> isSimpleCallArgument (arrayExpression 1 [mkIdentifier 2 ''a'', Null]) 0 = Inr True"
proof -
  note claim = asymmetric_depth_costing
  have "isSimpleCallArgument (callExpression 1 (mkIdentifier 2 ''f'') [mkIdentifier 3 ''a'']) 0
        = Inr True"
    using claim [THEN conjunct1, rule_format,
        of 0 "callExpression 1 (mkIdentifier 2 ''f'') [mkIdentifier 3 ''a'']"
           "''CallExpression''" "[mkIdentifier 3 ''a'']"]
    by (simp add: callExpression_def)
  moreover
  have "isSimpleCallArgument (memberExpression 1 (mkIdentifier 2 ''a'') (mkIdentifier 3 ''b'')) 1
        = Inr True"
    using claim [THEN conjunct2, THEN conjunct1, rule_format,
        of 1 "memberExpression 1 (mkIdentifier 2 ''a'') (mkIdentifier 3 ''b'')"
           "''MemberExpression''"]
    by (simp add: memberExpression_def)
  moreover
  have "isSimpleCallArgument (memberExpression 1 (mkIdentifier 2 ''a'') (mkIdentifier 3 ''b'')) 2
        \<noteq> Inr True"
    using claim [THEN conjunct2, THEN conjunct1, rule_format,
        of 2 "memberExpression 1 (mkIdentifier 2 ''a'') (mkIdentifier 3 ''b'')"
           "''MemberExpression''"]
    by (simp add: memberExpression_def)
  moreover
  have "isSimpleCallArgument (templateLiteral 1 [mkIdentifier 2 ''a'']) 0 = Inr True"
    using claim [THEN conjunct2, THEN conjunct2, THEN conjunct1, rule_format,
        of 0 "templateLiteral 1 [mkIdentifier 2 ''a'']" "[mkIdentifier 2 ''a'']"]
    by (simp add: templateLiteral_def)
  moreover
  have "isSimpleCallArgument (templateLiteral 1 [mkIdentifier 2 ''a'']) 1 \<noteq> Inr True"
    using claim [THEN conjunct2, THEN conjunct2, THEN conjunct1, rule_format,
        of 1 "templateLiteral 1 [mkIdentifier 2 ''a'']" "[mkIdentifier 2 ''a'']"]
    by (simp add: templateLiteral_def)
  moreover
  have "isSimpleCallArgument
         (objectExpression 1 [objectProperty 2 False (mkIdentifier 3 ''k'') (numericLiteral 4 1)]) 0
        = Inr True"
    using claim [THEN conjunct2, THEN conjunct2, THEN conjunct2, THEN conjunct1, rule_format,
        of 0 "objectExpression 1
                [objectProperty 2 False (mkIdentifier 3 ''k'') (numericLiteral 4 1)]"
           "[objectProperty 2 False (mkIdentifier 3 ''k'') (numericLiteral 4 1)]"]
    by (simp add: objectExpression_def objectProperty_def)
  moreover
  have "isSimpleCallArgument (arrayExpression 1 [mkIdentifier 2 ''a'', Null]) 0 = Inr True"
    using claim [THEN conjunct2, THEN conjunct2, THEN conjunct2, THEN conjunct2, THEN conjunct1,
        rule_format, of 0 "arrayExpression 1 [mkIdentifier 2 ''a'', Null]"
           "[mkIdentifier 2 ''a'', Null]"]
    by (simp add: arrayExpression_def)
  ultimately show ?thesis by (intro conjI)
qed

text \<open>
  C2. The claim: \<^verbatim>\<open>isSimpleCallArgument(x, d)\<close> is false whenever \<open>d \<ge> 3\<close>, and it is
  true at depth 0 on every node of a literal kind, a \<^verbatim>\<open>RegExpLiteral\<close> having a
  pattern of at most 5 characters. The first half holds. The second fails on the kind
  \<^verbatim>\<open>Literal\<close>: a regular expression literal of the ESTree parsers is a
  \<^verbatim>\<open>Literal\<close> with a \<^verbatim>\<open>regex\<close> field, and the code tests the length of its
  pattern too. \<^verbatim>\<open>/[a-z]+/\<close> in that form is not simple.
\<close>

theorem long_regex_Literal_counterexample:
  "get (regexLiteral 1 ''[a-z]+'') ''type'' = Inr (Str ''Literal'')
   \<and> isSimpleCallArgument (regexLiteral 1 ''[a-z]+'') 0 = Inr False"
proof (rule conjI)
  show "get (regexLiteral 1 ''[a-z]+'') ''type'' = Inr (Str ''Literal'')"
    by (simp add: regexLiteral_def)
  show "isSimpleCallArgument (regexLiteral 1 ''[a-z]+'') 0 = Inr False"
    by (rule long_regex)
qed

text \<open>
  C2 as amended: false at every depth of 3 or more, whatever the node; true at depth 0
  on every \<^verbatim>\<open>BigIntLiteral\<close>, \<^verbatim>\<open>BooleanLiteral\<close>, \<^verbatim>\<open>NullLiteral\<close>,
  \<^verbatim>\<open>NumericLiteral\<close> and \<^verbatim>\<open>StringLiteral\<close>, on every \<^verbatim>\<open>Literal\<close> that
  has no \<^verbatim>\<open>regex\<close> or whose \<^verbatim>\<open>regex.pattern\<close> has at most 5 characters, and on
  every \<^verbatim>\<open>RegExpLiteral\<close> whose pattern has at most 5 characters.
\<close>

theorem depth_cutoff_and_literals:
  "(\<forall>x d. 3 \<le> d \<longrightarrow> isSimpleCallArgument x d = Inr False)
   \<and> (\<forall>node t.
      get node ''type'' = Inr (Str t) \<longrightarrow>
      t = ''BigIntLiteral'' \<or> t = ''BooleanLiteral'' \<or> t = ''NullLiteral'' \<or>
      t = ''NumericLiteral'' \<or> t = ''StringLiteral'' \<longrightarrow>
      isSimpleCallArgument node 0 = Inr True)
   \<and> (\<forall>node.
      get node ''type'' = Inr (Str ''Literal'') \<longrightarrow>
      \<not> truthy (own_field node ''regex'') \<or>
      (\<exists>p. own_field (own_field node ''regex'') ''pattern'' = Str p \<and> length p \<le> 5) \<longrightarrow>
      isSimpleCallArgument node 0 = Inr True)
   \<and> (\<forall>node p.
      get node ''type'' = Inr (Str ''RegExpLiteral'') \<longrightarrow>
      own_field node ''pattern'' = Str p \<longrightarrow> length p \<le> 5 \<longrightarrow>
      isSimpleCallArgument node 0 = Inr True)"
proof (intro conjI allI impI)
  fix x and d :: int
  assume "3 \<le> d"
  then show "isSimpleCallArgument x d = Inr False"
    by (rule isSimpleCallArgument_cutoff)
next
  fix node t
  assume ty: "get node ''type'' = Inr (Str t)"
    and kind: "t = ''BigIntLiteral'' \<or> t = ''BooleanLiteral'' \<or> t = ''NullLiteral'' \<or>
     t = ''NumericLiteral'' \<or> t = ''StringLiteral''"
  from kind have kind': "t = ''BigIntLiteral'' \<or> t = ''BooleanLiteral'' \<or> t = ''NullLiteral'' \<or>
     t = ''NumericLiteral'' \<or> t = ''StringLiteral'' \<or> t = ''Identifier''"
    by (elim disjE) simp_all
  show "isSimpleCallArgument node 0 = Inr True"
    by (rule isSimpleCallArgument_plain [OF _ ty kind']) simp
next
  fix node
  assume "get node ''type'' = Inr (Str ''Literal'')"
    "\<not> truthy (own_field node ''regex'') \<or>
     (\<exists>p. own_field (own_field node ''regex'') ''pattern'' = Str p \<and> length p \<le> 5)"
  then show "isSimpleCallArgument node 0 = Inr True"
    using isSimpleCallArgument_Literal [of 0 node] by simp
next
  fix node p
  assume "get node ''type'' = Inr (Str ''RegExpLiteral'')"
    "own_field node ''pattern'' = Str p" "length p \<le> 5"
  then show "isSimpleCallArgument node 0 = Inr True"
    using isSimpleCallArgument_RegExpLiteral [of 0 node p] by simp
qed

theorem depth_cutoff_and_literals_witness:
  "isSimpleCallArgument (mkIdentifier 1 ''a'') 3 = Inr False
   \<and> isSimpleCallArgument Undefined 4 = Inr False
   \<and> isSimpleCallArgument (stringLiteral 1 ''x'') 0 = Inr True
   \<and> isSimpleCallArgument (regexLiteral 1 ''a+'') 0 = Inr True
   \<and> isSimpleCallArgument (regExpLiteral 1 ''[a-z]'') 0 = Inr True"
proof -
  note claim = depth_cutoff_and_literals
  have "isSimpleCallArgument (stringLiteral 1 ''x'') 0 = Inr True"
    using claim [THEN conjunct2, THEN conjunct1, rule_format,
        of "stringLiteral 1 ''x''" "''StringLiteral''"]
    by (simp add: stringLiteral_def)
  moreover
  have "isSimpleCallArgument (regexLiteral 1 ''a+'') 0 = Inr True"
    using claim [THEN conjunct2, THEN conjunct2, THEN conjunct1, rule_format,
        of "regexLiteral 1 ''a+''"]
    by (simp add: regexLiteral_def)
  moreover
  have "isSimpleCallArgument (regExpLiteral 1 ''[a-z]'') 0 = Inr True"
    using claim [THEN conjunct2, THEN conjunct2, THEN conjunct2, rule_format,
        of "regExpLiteral 1 ''[a-z]''" "''[a-z]''"]
    by (simp add: regExpLiteral_def)
  ultimately show ?thesis
    using claim [THEN conjunct1, rule_format, of 3 "mkIdentifier 1 ''a''"]
      claim [THEN conjunct1, rule_format, of 4 Undefined]
    by simp
qed

section \<open>Simple template literals: the code and the description\<close>

lemma accessChain_nonempty [simp]: "accessChain e \<noteq> []"
  by (subst accessChain.simps) simp

lemma not_member_nullish [simp]: "\<not> isMemberAccess Undefined" "\<not> isMemberAccess Null"
  by (simp_all add: isMemberAccess_def)

lemma member_test:
  "e \<noteq> Undefined \<Longrightarrow> e \<noteq> Null \<Longrightarrow>
   or_else (type_is e ''MemberExpression'') (type_is e ''OptionalMemberExpression'')
   = Inr (isMemberAccess e)"
  by (auto simp: type_is_def get_nonnullish isMemberAccess_def)

lemma plain_test:
  "e \<noteq> Undefined \<Longrightarrow> e \<noteq> Null \<Longrightarrow>
   or_else (type_is e ''Identifier'') (type_is e ''ThisExpression'')
   = Inr (isIdentifierOrThis e)"
  by (auto simp: type_is_def get_nonnullish isIdentifierOrThis_def)

lemma not_plain_nullish [simp]: "\<not> isIdentifierOrThis Undefined" "\<not> isIdentifierOrThis Null"
  by (simp_all add: isIdentifierOrThis_def)

lemma loop_nullish [simp]:
  "isSimpleTemplateLiteral_loop Undefined = Inl TypeError"
  "isSimpleTemplateLiteral_loop Null = Inl TypeError"
  by (subst isSimpleTemplateLiteral_loop.simps, simp add: type_is_def)+

lemma property_test:
  assumes "e \<noteq> Undefined" "e \<noteq> Null"
  shows "and_then (get e ''property'') (\<lambda>property.
           and_then (get property ''type'') (\<lambda>pt.
             if pt \<noteq> Str ''Identifier'' \<and> pt \<noteq> Str ''Literal'' \<and>
                pt \<noteq> Str ''StringLiteral'' \<and> pt \<noteq> Str ''NumericLiteral''
             then Inr False else k)) = Inr True
         \<longleftrightarrow> propertyTagAccepted e \<and> k = Inr True"
proof (cases "own_field e ''property'' = Undefined \<or> own_field e ''property'' = Null")
  case True
  then show ?thesis
    by (auto simp: get_nonnullish [OF assms] propertyTagAccepted_def)
next
  case False
  then show ?thesis
    by (auto simp: get_nonnullish [OF assms] get_nonnullish propertyTagAccepted_def Let_def)
qed

lemma loop_iff:
  "isSimpleTemplateLiteral_loop head = Inr True \<longleftrightarrow>
     isIdentifierOrThis (last (accessChain head)) \<and>
     list_all propertyTagAccepted (butlast (accessChain head)) \<and>
     list_all (\<lambda>n. \<not> hasComments n) (tl (accessChain head))"
proof (induction head rule: accessChain.induct)
  case (1 e)
  show ?case
  proof (cases "e = Undefined \<or> e = Null")
    case True
    then show ?thesis
      by (subst accessChain.simps, subst (2) accessChain.simps, subst (3) accessChain.simps) auto
  next
    case False
    then have nn: "e \<noteq> Undefined" "e \<noteq> Null" by simp_all
    show ?thesis
    proof (cases "isMemberAccess e")
      case False
      then have c: "accessChain e = [e]" by (subst accessChain.simps) simp
      from False show ?thesis
        by (subst isSimpleTemplateLiteral_loop.simps) (simp add: c member_test nn plain_test)
    next
      case True
      let ?h = "own_field e ''object''"
      from True have c: "accessChain e = e # accessChain ?h"
        by (subst accessChain.simps) simp
      have unfold: "isSimpleTemplateLiteral_loop e =
          and_then (get e ''property'') (\<lambda>property.
           and_then (get property ''type'') (\<lambda>pt.
             if pt \<noteq> Str ''Identifier'' \<and> pt \<noteq> Str ''Literal'' \<and>
                pt \<noteq> Str ''StringLiteral'' \<and> pt \<noteq> Str ''NumericLiteral''
             then Inr False
             else and_then (get ?h ''comments'') (\<lambda>comments.
                    if truthy comments then Inr False
                    else isSimpleTemplateLiteral_loop ?h)))"
        using True
        by (subst isSimpleTemplateLiteral_loop.simps)
           (simp add: member_test nn get_nonnullish cong: if_cong)
      have rest: "and_then (get ?h ''comments'') (\<lambda>comments.
                    if truthy comments then Inr False
                    else isSimpleTemplateLiteral_loop ?h) = Inr True
                  \<longleftrightarrow> \<not> hasComments ?h \<and> isSimpleTemplateLiteral_loop ?h = Inr True"
        by (cases "?h = Undefined \<or> ?h = Null") (auto simp: get_nonnullish hasComments_def)
      have hd_chain: "hd (accessChain ?h) = ?h"
        by (subst accessChain.simps) simp
      have "list_all (\<lambda>n. \<not> hasComments n) (accessChain ?h) \<longleftrightarrow>
            \<not> hasComments ?h \<and> list_all (\<lambda>n. \<not> hasComments n) (tl (accessChain ?h))"
        using hd_chain by (cases "accessChain ?h") auto
      with "1.IH" [OF True] show ?thesis
        by (simp add: unfold property_test [OF nn] rest c) blast
    qed
  qed
qed

lemma expr_iff: "isSimpleTemplateLiteral_expr e = Inr True \<longleftrightarrow> acceptedInterpolation e"
proof (cases "e = Undefined \<or> e = Null")
  case True
  then have "accessChain e = [e]"
    by (subst accessChain.simps) auto
  with True show ?thesis
    by (auto simp: isSimpleTemplateLiteral_expr_def acceptedInterpolation_def)
next
  case False
  then have nn: "e \<noteq> Undefined" "e \<noteq> Null" by simp_all
  have hd_chain: "hd (accessChain e) = e"
    by (subst accessChain.simps) simp
  have all: "list_all (\<lambda>n. \<not> hasComments n) (accessChain e) \<longleftrightarrow>
        \<not> hasComments e \<and> list_all (\<lambda>n. \<not> hasComments n) (tl (accessChain e))"
    using hd_chain by (cases "accessChain e") auto
  show ?thesis
  proof (cases "isMemberAccess e")
    case True
    then have "\<not> isIdentifierOrThis e"
      by (auto simp: isMemberAccess_def isIdentifierOrThis_def)
    with True show ?thesis
      unfolding isSimpleTemplateLiteral_expr_def acceptedInterpolation_def
      by (simp add: get_nonnullish [OF nn] plain_test [OF nn] member_test [OF nn] loop_iff all
          hasComments_def [symmetric])
  next
    case False
    then have "accessChain e = [e]"
      by (subst accessChain.simps) simp
    with False show ?thesis
      unfolding isSimpleTemplateLiteral_expr_def acceptedInterpolation_def
      by (simp add: get_nonnullish [OF nn] plain_test [OF nn] member_test [OF nn]
          hasComments_def [symmetric])
  qed
qed

text \<open>
  What the code accepts. On a template literal with no interpolated expression
  \<^verbatim>\<open>isSimpleTemplateLiteral\<close> returns false. Otherwise it returns true iff every
  interpolated expression is rooted at an identifier or \<^verbatim>\<open>this\<close>, the property of
  every member access on the way has one of the four accepted kinds, and no comment is
  on a node of the chain (the expression, the objects below it, and the root).
\<close>

lemma isSimpleTemplateLiteral_accepts:
  assumes "get node ''expressions'' = Inr (Arr es)"
  shows "(es = [] \<longrightarrow> isSimpleTemplateLiteral node = Inr False)
         \<and> (es \<noteq> [] \<longrightarrow>
              (isSimpleTemplateLiteral node = Inr True \<longleftrightarrow>
               (\<forall>e\<in>set es. acceptedInterpolation e)))"
  by (simp add: isSimpleTemplateLiteral_def assms every_m_True_iff expr_iff)

lemma acceptedInterpolation_this_x_y:
  "acceptedInterpolation
     (memberExpression 2 (memberExpression 3 (thisExpression 4) (mkIdentifier 5 ''x''))
        (mkIdentifier 6 ''y''))"
  by (simp add: acceptedInterpolation_def accessChain.simps isMemberAccess_def
      isIdentifierOrThis_def propertyTagAccepted_def hasComments_def
      memberExpression_def thisExpression_def mkIdentifier_def)

lemma not_acceptedInterpolation_call:
  "\<not> acceptedInterpolation
     (memberExpression 2 (callExpression 3 (mkIdentifier 4 ''a'') []) (mkIdentifier 5 ''b''))"
  by (simp add: acceptedInterpolation_def accessChain.simps isMemberAccess_def
      isIdentifierOrThis_def propertyTagAccepted_def hasComments_def
      memberExpression_def callExpression_def mkIdentifier_def)

text \<open>A literal without interpolation, \<^verbatim>\<open>${this.x.y}\<close> and \<^verbatim>\<open>${a().b}\<close>.\<close>

lemma isSimpleTemplateLiteral_examples:
  "isSimpleTemplateLiteral (templateLiteral 1 []) = Inr False
   \<and> isSimpleTemplateLiteral
        (templateLiteral 1
           [memberExpression 2 (memberExpression 3 (thisExpression 4) (mkIdentifier 5 ''x''))
              (mkIdentifier 6 ''y'')]) = Inr True
   \<and> isSimpleTemplateLiteral
        (templateLiteral 1
           [memberExpression 2 (callExpression 3 (mkIdentifier 4 ''a'') [])
              (mkIdentifier 5 ''b'')]) \<noteq> Inr True"
proof (intro conjI)
  show "isSimpleTemplateLiteral (templateLiteral 1 []) = Inr False"
    using isSimpleTemplateLiteral_accepts [of "templateLiteral 1 []" "[]"]
    by (simp add: templateLiteral_def)
next
  let ?e = "memberExpression 2 (memberExpression 3 (thisExpression 4) (mkIdentifier 5 ''x''))
              (mkIdentifier 6 ''y'')"
  have "get (templateLiteral 1 [?e]) ''expressions'' = Inr (Arr [?e])"
    by (simp add: templateLiteral_def)
  from isSimpleTemplateLiteral_accepts [OF this] acceptedInterpolation_this_x_y
  show "isSimpleTemplateLiteral (templateLiteral 1 [?e]) = Inr True"
    by simp
next
  let ?e = "memberExpression 2 (callExpression 3 (mkIdentifier 4 ''a'') [])
              (mkIdentifier 5 ''b'')"
  have "get (templateLiteral 1 [?e]) ''expressions'' = Inr (Arr [?e])"
    by (simp add: templateLiteral_def)
  from isSimpleTemplateLiteral_accepts [OF this] not_acceptedInterpolation_call
  show "isSimpleTemplateLiteral (templateLiteral 1 [?e]) \<noteq> Inr True"
    by simp
qed

subsection \<open>Where the code and the description agree\<close>

text \<open>Each of the four accepted kinds of property is an identifier or a literal key.\<close>

lemma propertyTagAccepted_key: "propertyTagAccepted n \<Longrightarrow> propertyIsKey n"
  by (auto simp: propertyTagAccepted_def propertyIsKey_def isLiteralKey_def Let_def)

text \<open>
  The code and the description agree on every interpolated expression in which no
  property carries a comment and every property that is a key has one of the four
  accepted kinds.
\<close>

lemma accepted_iff_simple:
  assumes "list_all (\<lambda>n. \<not> hasComments (own_field n ''property'')) (butlast (accessChain e))"
    and "list_all (\<lambda>n. propertyIsKey n \<longrightarrow> propertyTagAccepted n) (butlast (accessChain e))"
  shows "acceptedInterpolation e \<longleftrightarrow> simpleInterpolation e"
proof -
  have keys: "list_all propertyTagAccepted (butlast (accessChain e)) \<longleftrightarrow>
              list_all propertyIsKey (butlast (accessChain e))"
    using assms(2) propertyTagAccepted_key by (auto simp: list_all_iff)
  have comments: "list_all (\<lambda>n. \<not> hasComments n) (visitedNodes e) \<longleftrightarrow>
                  list_all (\<lambda>n. \<not> hasComments n) (accessChain e)"
    using assms(1) by (auto simp: visitedNodes_def list_all_iff)
  show ?thesis
    by (simp add: acceptedInterpolation_def simpleInterpolation_def keys comments)
qed

lemma isSimpleTemplateLiteral_simple:
  assumes "get node ''expressions'' = Inr (Arr es)" and "es \<noteq> []"
    and "\<forall>e\<in>set es.
           list_all (\<lambda>n. \<not> hasComments (own_field n ''property'')) (butlast (accessChain e)) \<and>
           list_all (\<lambda>n. propertyIsKey n \<longrightarrow> propertyTagAccepted n) (butlast (accessChain e))"
  shows "isSimpleTemplateLiteral node = Inr True \<longleftrightarrow> (\<forall>e\<in>set es. simpleInterpolation e)"
  using isSimpleTemplateLiteral_accepts [OF assms(1)] assms(2,3) accepted_iff_simple
  by auto

subsection \<open>Where they differ\<close>

text \<open>
  The same source \<^verbatim>\<open>${a[true]}\<close> in the two dialects. The key \<^verbatim>\<open>true\<close> is a
  \<^verbatim>\<open>BooleanLiteral\<close> in a Babel tree, which is not one of the four accepted kinds, and
  a \<^verbatim>\<open>Literal\<close> in an ESTree tree, which is. Both are literal keys.
\<close>

lemma boolean_key_in_both_dialects:
  "isSimpleTemplateLiteral
     (templateLiteral 1
        [computedMemberExpression 2 (mkIdentifier 3 ''a'') (booleanLiteral 4 True)])
   = Inr False
   \<and> simpleInterpolation
       (computedMemberExpression 2 (mkIdentifier 3 ''a'') (booleanLiteral 4 True))
   \<and> isSimpleTemplateLiteral
       (templateLiteral 1
          [computedMemberExpression 2 (mkIdentifier 3 ''a'') (literal 4 (Bool True))])
     = Inr True
   \<and> simpleInterpolation
       (computedMemberExpression 2 (mkIdentifier 3 ''a'') (literal 4 (Bool True)))"
proof -
  let ?babel = "computedMemberExpression 2 (mkIdentifier 3 ''a'') (booleanLiteral 4 True)"
  let ?estree = "computedMemberExpression 2 (mkIdentifier 3 ''a'') (literal 4 (Bool True))"
  have chains: "accessChain ?babel = [?babel, mkIdentifier 3 ''a'']"
    "accessChain ?estree = [?estree, mkIdentifier 3 ''a'']"
    by (simp_all add: accessChain.simps isMemberAccess_def computedMemberExpression_def
        mkIdentifier_def)
  have "\<not> acceptedInterpolation ?babel"
    by (simp add: acceptedInterpolation_def chains)
       (simp add: propertyTagAccepted_def computedMemberExpression_def booleanLiteral_def)
  moreover have "acceptedInterpolation ?estree"
    by (simp add: acceptedInterpolation_def chains)
       (simp add: propertyTagAccepted_def isIdentifierOrThis_def hasComments_def
        computedMemberExpression_def literal_def mkIdentifier_def)
  moreover have "simpleInterpolation ?babel"
    by (simp add: simpleInterpolation_def visitedNodes_def chains)
       (simp add: propertyIsKey_def isLiteralKey_def isIdentifierOrThis_def hasComments_def
        computedMemberExpression_def booleanLiteral_def mkIdentifier_def)
  moreover have "simpleInterpolation ?estree"
    by (simp add: simpleInterpolation_def visitedNodes_def chains)
       (simp add: propertyIsKey_def isLiteralKey_def isIdentifierOrThis_def hasComments_def
        computedMemberExpression_def literal_def mkIdentifier_def)
  moreover have "isSimpleTemplateLiteral (templateLiteral 1 [?babel]) = Inr True
                 \<longleftrightarrow> acceptedInterpolation ?babel"
    using isSimpleTemplateLiteral_accepts [of "templateLiteral 1 [?babel]" "[?babel]"]
    by (simp add: templateLiteral_def)
  moreover have "isSimpleTemplateLiteral (templateLiteral 1 [?estree]) = Inr True
                 \<longleftrightarrow> acceptedInterpolation ?estree"
    using isSimpleTemplateLiteral_accepts [of "templateLiteral 1 [?estree]" "[?estree]"]
    by (simp add: templateLiteral_def)
  moreover have "isSimpleTemplateLiteral (templateLiteral 1 [?babel]) = Inr False"
    by (simp add: isSimpleTemplateLiteral_def isSimpleTemplateLiteral_expr_def
        isSimpleTemplateLiteral_loop.simps type_is_def
        templateLiteral_def computedMemberExpression_def booleanLiteral_def mkIdentifier_def)
  ultimately show ?thesis by simp
qed

text \<open>
  C8. The claim: \<^verbatim>\<open>isSimpleTemplateLiteral\<close> returns false on a template literal with
  no interpolation, and otherwise returns true iff every interpolated expression is an
  identifier or \<^verbatim>\<open>this\<close>, or a chain of member or optional member accesses whose
  every property is an identifier or a literal key, rooted at an identifier or
  \<^verbatim>\<open>this\<close>, with no comment attached to any node visited along the chain.

  The equivalence fails. The loop visits \<^verbatim>\<open>head.property\<close> at every member access,
  to read its kind, and tests \<^verbatim>\<open>comments\<close> on \<^verbatim>\<open>expr\<close> and on every
  \<^verbatim>\<open>head.object\<close> only. In \<^verbatim>\<open>${a./*c*/b}\<close> the comment is attached to the
  property \<^verbatim>\<open>b\<close>, a node visited along the chain, so the interpolation is not simple;
  the code returns true. The code states its purpose at the first test: ``Disallow
  comments since printDocToString can't print them here''.
\<close>

theorem comment_on_property_accepted:
  "isSimpleTemplateLiteral (templateLiteral 1 [commentedProperty]) = Inr True
   \<and> own_field commentedProperty ''property'' = commentedIdentifier 4 ''b'' 5 ''c''
   \<and> hasComments (commentedIdentifier 4 ''b'' 5 ''c'')
   \<and> list_ex hasComments (visitedNodes commentedProperty)
   \<and> \<not> simpleInterpolation commentedProperty"
proof -
  have chain: "accessChain commentedProperty = [commentedProperty, mkIdentifier 3 ''a'']"
    by (simp add: accessChain.simps isMemberAccess_def commentedProperty_def
        memberExpression_def mkIdentifier_def)
  have property: "own_field commentedProperty ''property'' = commentedIdentifier 4 ''b'' 5 ''c''"
    by (simp add: commentedProperty_def memberExpression_def)
  have commented: "hasComments (commentedIdentifier 4 ''b'' 5 ''c'')"
    by (simp add: hasComments_def commentedIdentifier_def)
  have visited: "visitedNodes commentedProperty =
                 [commentedProperty, mkIdentifier 3 ''a'', commentedIdentifier 4 ''b'' 5 ''c'']"
    by (simp add: visitedNodes_def chain property)
  have accepted: "acceptedInterpolation commentedProperty"
    by (simp add: acceptedInterpolation_def chain)
       (simp add: propertyTagAccepted_def property isIdentifierOrThis_def hasComments_def
        commentedIdentifier_def commentedProperty_def memberExpression_def mkIdentifier_def)
  have "isSimpleTemplateLiteral (templateLiteral 1 [commentedProperty]) = Inr True"
    using isSimpleTemplateLiteral_accepts
      [of "templateLiteral 1 [commentedProperty]" "[commentedProperty]"] accepted
    by (simp add: templateLiteral_def)
  moreover have "list_ex hasComments (visitedNodes commentedProperty)"
    by (simp add: visited commented)
  moreover have "\<not> simpleInterpolation commentedProperty"
    by (simp add: simpleInterpolation_def visited commented)
  ultimately show ?thesis
    using property commented by simp
qed

section \<open>The last statement of a body: where it is defined\<close>

lemma js_filter_Arr [simp]: "js_filter f (Arr xs) = filter_m f xs"
  by (simp add: js_filter_def)

lemma js_filter_not_Arr: "\<forall>xs. v \<noteq> Arr xs \<Longrightarrow> js_filter f v = Inl TypeError"
  by (cases v) (simp_all add: js_filter_def)

lemma container_read:
  "parent \<noteq> Undefined \<Longrightarrow> parent \<noteq> Null \<Longrightarrow>
   js_or (get parent ''body'') (get parent ''consequent'') = Inr (statementContainer parent)"
  by (simp add: get_nonnullish statementContainer_def)

lemma filter_m_objects:
  "\<forall>s\<in>set stmts. isObject s \<Longrightarrow>
   filter_m (\<lambda>stmt. and_then (get stmt ''type'') (\<lambda>t. Inr (t \<noteq> Str ''EmptyStatement''))) stmts
   = Inr (filter (\<lambda>stmt. own_field stmt ''type'' \<noteq> Str ''EmptyStatement'') stmts)"
proof (induction stmts)
  case Nil
  show ?case by simp
next
  case (Cons s stmts)
  from Cons.prems obtain a fs where "s = Obj a fs"
    by (cases s) (simp_all add: isObject_def)
  with Cons show ?case by simp
qed

lemma strict_eq_Obj: "strict_eq (Obj a fs) w = Inr (\<exists>gs. w = Obj a gs)"
  by (cases w) (auto simp: strict_eq_def)

lemma strict_eq_Undefined: "strict_eq Undefined w = Inr (w = Undefined)"
  by (cases w) (auto simp: strict_eq_def)

lemma isLastStatement_root:
  "\<not> truthy (getParentNode path) \<Longrightarrow> isLastStatement path = Inr True"
  by (simp add: isLastStatement_def)

lemma isLastStatement_list:
  assumes "truthy (getParentNode path)"
      and "statementContainer (getParentNode path) = Arr stmts"
      and "\<forall>s\<in>set stmts. isObject s"
  shows "\<exists>b. isLastStatement path = Inr b"
proof -
  let ?body = "filter (\<lambda>stmt. own_field stmt ''type'' \<noteq> Str ''EmptyStatement'') stmts"
  from assms(1) have nn: "getParentNode path \<noteq> Undefined" "getParentNode path \<noteq> Null"
    by auto
  have eq: "isLastStatement path =
        strict_eq (if ?body = [] then Undefined else last ?body) (getValue path)"
    using assms(1)
    by (simp add: isLastStatement_def Let_def container_read [OF nn] assms(2)
        filter_m_objects [OF assms(3)])
  show ?thesis
  proof (cases "?body = []")
    case True
    with eq show ?thesis by (simp add: strict_eq_Undefined)
  next
    case False
    then have "last ?body \<in> set ?body" by (rule last_in_set)
    then have "last ?body \<in> set stmts" by simp
    with assms(3) obtain a fs where "last ?body = Obj a fs"
      by (cases "last ?body") (auto simp: isObject_def)
    with eq False show ?thesis by (simp add: strict_eq_Obj)
  qed
qed

lemma isLastStatement_not_list:
  assumes "truthy (getParentNode path)"
      and "\<forall>stmts. statementContainer (getParentNode path) \<noteq> Arr stmts"
  shows "isLastStatement path = Inl TypeError"
proof -
  from assms(1) have nn: "getParentNode path \<noteq> Undefined" "getParentNode path \<noteq> Null"
    by auto
  show ?thesis
    using assms(1)
    by (simp add: isLastStatement_def Let_def container_read [OF nn]
        js_filter_not_Arr [OF assms(2)])
qed

text \<open>
  C7. The claim: every classifier other than the left-side resolver is total and never
  raises; in particular \<^verbatim>\<open>isLastStatement\<close> returns a boolean for every focus node
  and parent, including a parent whose statement container is a single-branch
  consequent rather than a body array. The code calls \<^verbatim>\<open>.filter\<close> on
  \<^verbatim>\<open>parent.body || parent.consequent\<close> without a test: when that value is a single
  statement (the consequent of an \<^verbatim>\<open>if\<close>, the body of a \<^verbatim>\<open>while\<close>) or is
  absent, the call throws a TypeError.
\<close>

theorem isLastStatement_throws_counterexample:
  "isLastStatement
     \<lparr>getParentNode =
        ifStatement 1 (mkIdentifier 2 ''a'') (expressionStatement 3 (mkIdentifier 4 ''b'')),
      getValue = expressionStatement 3 (mkIdentifier 4 ''b'')\<rparr> = Inl TypeError
   \<and> isLastStatement
     \<lparr>getParentNode =
        whileStatement 1 (mkIdentifier 2 ''a'') (expressionStatement 3 (mkIdentifier 4 ''b'')),
      getValue = expressionStatement 3 (mkIdentifier 4 ''b'')\<rparr> = Inl TypeError"
  by (simp add: isLastStatement_def ifStatement_def whileStatement_def expressionStatement_def
      js_filter_def)

text \<open>
  C7 as amended: \<^verbatim>\<open>isLastStatement\<close> returns true when there is no parent, and
  returns a boolean without raising whenever the parent's statement container (its body,
  or its consequent when the body is not set) is an array of nodes; when the container
  is not an array it raises a TypeError.
\<close>

theorem isLastStatement_on_statement_lists:
  "(\<not> truthy (getParentNode path) \<longrightarrow> isLastStatement path = Inr True)
   \<and> (truthy (getParentNode path) \<longrightarrow>
        statementContainer (getParentNode path) = Arr stmts \<longrightarrow>
        (\<forall>s\<in>set stmts. isObject s) \<longrightarrow>
        (\<exists>b. isLastStatement path = Inr b))
   \<and> (truthy (getParentNode path) \<longrightarrow>
        (\<forall>stmts. statementContainer (getParentNode path) \<noteq> Arr stmts) \<longrightarrow>
        isLastStatement path = Inl TypeError)"
  using isLastStatement_root isLastStatement_list isLastStatement_not_list by blast

theorem isLastStatement_on_statement_lists_witness:
  "isLastStatement \<lparr>getParentNode = Null, getValue = blockStatement 1 []\<rparr> = Inr True
   \<and> (\<exists>b. isLastStatement
          \<lparr>getParentNode =
             blockStatement 1 [expressionStatement 2 (mkIdentifier 3 ''a''), emptyStatement 4],
           getValue = expressionStatement 2 (mkIdentifier 3 ''a'')\<rparr> = Inr b)
   \<and> (\<exists>b. isLastStatement
          \<lparr>getParentNode =
             switchCase 1 (mkIdentifier 2 ''k'') [expressionStatement 3 (mkIdentifier 4 ''a'')],
           getValue = expressionStatement 3 (mkIdentifier 4 ''a'')\<rparr> = Inr b)
   \<and> isLastStatement
        \<lparr>getParentNode =
           ifStatement 1 (mkIdentifier 2 ''a'') (expressionStatement 3 (mkIdentifier 4 ''b'')),
         getValue = expressionStatement 3 (mkIdentifier 4 ''b'')\<rparr> = Inl TypeError"
proof (intro conjI)
  let ?p = "\<lparr>getParentNode = Null, getValue = blockStatement 1 []\<rparr>"
  show "isLastStatement ?p = Inr True"
    using isLastStatement_on_statement_lists [of ?p] by simp
next
  let ?stmts = "[expressionStatement 2 (mkIdentifier 3 ''a''), emptyStatement 4]"
  let ?p = "\<lparr>getParentNode = blockStatement 1 ?stmts,
             getValue = expressionStatement 2 (mkIdentifier 3 ''a'')\<rparr>"
  show "\<exists>b. isLastStatement ?p = Inr b"
    using isLastStatement_on_statement_lists [of ?p ?stmts]
    by (simp add: blockStatement_def statementContainer_def isObject_def
        expressionStatement_def emptyStatement_def)
next
  let ?stmts = "[expressionStatement 3 (mkIdentifier 4 ''a'')]"
  let ?p = "\<lparr>getParentNode = switchCase 1 (mkIdentifier 2 ''k'') ?stmts,
             getValue = expressionStatement 3 (mkIdentifier 4 ''a'')\<rparr>"
  show "\<exists>b. isLastStatement ?p = Inr b"
    using isLastStatement_on_statement_lists [of ?p ?stmts]
    by (simp add: switchCase_def statementContainer_def isObject_def expressionStatement_def)
next
  let ?p = "\<lparr>getParentNode =
               ifStatement 1 (mkIdentifier 2 ''a'') (expressionStatement 3 (mkIdentifier 4 ''b'')),
             getValue = expressionStatement 3 (mkIdentifier 4 ''b'')\<rparr>"
  show "isLastStatement ?p = Inl TypeError"
    using isLastStatement_on_statement_lists [of ?p]
    by (simp add: ifStatement_def statementContainer_def expressionStatement_def)
qed

lemma last_statement_values:
  "isLastStatement
     \<lparr>getParentNode =
        blockStatement 1 [expressionStatement 2 (mkIdentifier 3 ''a''), emptyStatement 4],
      getValue = expressionStatement 2 (mkIdentifier 3 ''a'')\<rparr> = Inr True"
  "isLastStatement
     \<lparr>getParentNode =
        blockStatement 1 [expressionStatement 2 (mkIdentifier 3 ''a''),
                          expressionStatement 4 (mkIdentifier 5 ''a'')],
      getValue = expressionStatement 2 (mkIdentifier 3 ''a'')\<rparr> = Inr False"
  by (simp_all add: isLastStatement_def blockStatement_def expressionStatement_def
      emptyStatement_def strict_eq_def)

section \<open>The blank-line scanner\<close>

lemma blank_line_first: "hasTopLevelBlankLines ''{\<newline>\<newline>  x = 1;\<newline>}'' = True"
  by (simp add: hasTopLevelBlankLines_def)

lemma blank_line_nested_only: "hasTopLevelBlankLines ''{\<newline>  if (true) {\<newline>\<newline>   x = y\<newline>  }\<newline>}'' = False"
  by (simp add: hasTopLevelBlankLines_def)

text \<open>The scanner finds every blank line of the specification: two newlines at depth 1
  with only spaces between them make it return true, whatever precedes them.\<close>

lemma loop_after_newline:
  "hasTopLevelBlankLines_loop 1 True (replicate k CHR '' '' @ CHR ''\<newline>'' # rest)"
  by (induction k) simp_all

lemma loop_reaches_blank_line:
  "c + (int (count_list p CHR ''{'') - int (count_list p CHR ''}'')) = 1 \<Longrightarrow>
   hasTopLevelBlankLines_loop c nf
     (p @ CHR ''\<newline>'' # replicate k CHR '' '' @ CHR ''\<newline>'' # rest)"
proof (induction p arbitrary: c nf)
  case Nil
  then show ?case using loop_after_newline [of k rest] by simp
next
  case (Cons ch p)
  show ?case
  proof (cases "ch = CHR ''{''")
    case True
    with Cons.prems have "(c + 1) + (int (count_list p CHR ''{'') - int (count_list p CHR ''}'')) = 1"
      by simp
    from Cons.IH [OF this] True show ?thesis by simp
  next
    case False
    show ?thesis
    proof (cases "ch = CHR ''}''")
      case True
      with Cons.prems have "(c - 1) + (int (count_list p CHR ''{'') - int (count_list p CHR ''}'')) = 1"
        by simp
      from Cons.IH [OF this] True show ?thesis by simp
    next
      case False
      with \<open>ch \<noteq> CHR ''{''\<close> Cons.prems
      have "c + (int (count_list p CHR ''{'') - int (count_list p CHR ''}'')) = 1"
        by simp
      from Cons.IH [OF this] False \<open>ch \<noteq> CHR ''{''\<close> show ?thesis by auto
    qed
  qed
qed

lemma blank_line_split:
  assumes "i < j" "j < length s" "s ! i = CHR ''\<newline>''" "s ! j = CHR ''\<newline>''"
      and "list_all (\<lambda>k. s ! k = CHR '' '') [Suc i..<j]"
  shows "s = take i s @ CHR ''\<newline>'' # replicate (j - Suc i) CHR '' '' @ CHR ''\<newline>'' # drop (Suc j) s"
proof -
  have "s = take i s @ s ! i # drop (Suc i) s"
    using assms(1,2) by (intro id_take_nth_drop) simp
  moreover have "drop (Suc i) s = take (j - Suc i) (drop (Suc i) s) @ drop (Suc i) s ! (j - Suc i) # drop (Suc (j - Suc i)) (drop (Suc i) s)"
    using assms(1,2) by (intro id_take_nth_drop) simp
  moreover have "drop (Suc i) s ! (j - Suc i) = s ! j"
    using assms(1,2) by simp
  moreover have "drop (Suc (j - Suc i)) (drop (Suc i) s) = drop (Suc j) s"
    using assms(1,2) by simp
  moreover have "take (j - Suc i) (drop (Suc i) s) = replicate (j - Suc i) CHR '' ''"
  proof (rule nth_equalityI)
    show "length (take (j - Suc i) (drop (Suc i) s)) = length (replicate (j - Suc i) CHR '' '')"
      using assms(1,2) by simp
  next
    fix k assume "k < length (take (j - Suc i) (drop (Suc i) s))"
    then have k: "k < j - Suc i" by simp
    then have "Suc i + k \<in> set [Suc i..<j]" by simp
    with assms(5) have "s ! (Suc i + k) = CHR '' ''"
      unfolding list_all_iff by blast
    with k assms(1,2) show "take (j - Suc i) (drop (Suc i) s) ! k = replicate (j - Suc i) CHR '' '' ! k"
      by simp
  qed
  ultimately show ?thesis using assms(3,4) by simp
qed

lemma scanner_finds_every_blank_line:
  assumes "blankLineAtDepthOne s"
  shows "hasTopLevelBlankLines s"
proof -
  from assms obtain i j where ij: "i < j" "j < length s"
      "s ! i = CHR ''\<newline>''" "s ! j = CHR ''\<newline>''" "braceDepth s i = 1"
      "list_all (\<lambda>k. s ! k = CHR '' '') [Suc i..<j]"
    unfolding blankLineAtDepthOne_def list_ex_iff by auto
  from blank_line_split [OF ij(1-4) ij(6)]
  obtain rest where s: "s = take i s @ CHR ''\<newline>'' # replicate (j - Suc i) CHR '' '' @ CHR ''\<newline>'' # rest"
    by blast
  from ij(5) have "0 + (int (count_list (take i s) CHR ''{'') - int (count_list (take i s) CHR ''}'')) = 1"
    by (simp add: braceDepth_def)
  from loop_reaches_blank_line [OF this, of False "j - Suc i" rest] s
  show ?thesis by (simp add: hasTopLevelBlankLines_def)
qed

text \<open>
  C5. The claim: the scanner returns true iff two newlines occur at nesting depth exactly
  1 with only spaces between them; \<^verbatim>\<open>"{\n\n  x = 1;\n}"\<close> gives true and
  \<^verbatim>\<open>"{\n  if (true) {\n\n   x = y\n  }\n}"\<close> gives false. Both examples evaluate as
  claimed. The equivalence fails: a brace, and every character inside nested braces,
  leaves \<^verbatim>\<open>newlineFound\<close> as it is, so the newline before a nested block and the
  newline after it count as a blank line. On \<^verbatim>\<open>"{\n{}\n}"\<close> and on a block that
  holds one nested block on lines of its own the scanner returns true, though the text
  has no blank line (the code's own comment: only spaces do not reset
  \<^verbatim>\<open>newlineFound\<close>).
\<close>

theorem blank_line_scanner_on_nested_block:
  "hasTopLevelBlankLines ''{\<newline>{}\<newline>}'' = True
   \<and> \<not> blankLineAtDepthOne ''{\<newline>{}\<newline>}''
   \<and> hasBlankLinesInBlock (blockStatement 1 [blockStatement 2 []])
         (wholeText ''{\<newline>  {\<newline>  }\<newline>}'') = True
   \<and> \<not> blankLineAtDepthOne ''{\<newline>  {\<newline>  }\<newline>}''
   \<and> hasTopLevelBlankLines ''{\<newline>\<newline>  x = 1;\<newline>}'' = True
   \<and> hasTopLevelBlankLines ''{\<newline>  if (true) {\<newline>\<newline>   x = y\<newline>  }\<newline>}'' = False"
proof (intro conjI)
  show "hasTopLevelBlankLines ''{\<newline>{}\<newline>}'' = True"
    by (simp add: hasTopLevelBlankLines_def)
  show "\<not> blankLineAtDepthOne ''{\<newline>{}\<newline>}''"
    by code_simp
  show "hasBlankLinesInBlock (blockStatement 1 [blockStatement 2 []])
         (wholeText ''{\<newline>  {\<newline>  }\<newline>}'') = True"
    by (simp add: hasBlankLinesInBlock_def wholeText_def slice_def hasTopLevelBlankLines_def)
  show "\<not> blankLineAtDepthOne ''{\<newline>  {\<newline>  }\<newline>}''"
    by code_simp
  show "hasTopLevelBlankLines ''{\<newline>\<newline>  x = 1;\<newline>}'' = True"
    by (rule blank_line_first)
  show "hasTopLevelBlankLines ''{\<newline>  if (true) {\<newline>\<newline>   x = y\<newline>  }\<newline>}'' = False"
    by (rule blank_line_nested_only)
qed

section \<open>Test calls with two or three arguments\<close>

lemma unitTestRe_iff: "unitTestRe s \<longleftrightarrow> s \<in> set unitTestNames"
  by (auto simp: unitTestRe_def unitTestNames_def)

lemma digits_last: "digits n \<noteq> [] \<and> last (digits n) \<in> set ''0123456789''"
proof (induction n rule: digits.induct)
  case (1 n)
  have "n mod 10 < 10" by simp
  then have "''0123456789'' ! (n mod 10) \<in> set ''0123456789''"
    by (intro nth_mem) simp
  moreover have "n < 10 \<Longrightarrow> ''0123456789'' ! n \<in> set ''0123456789''"
    by (intro nth_mem) simp
  ultimately show ?case
    by (subst digits.simps, subst (2) digits.simps) (simp del: digits.simps)
qed

lemma unitTestNames_last:
  "s \<in> set unitTestNames \<Longrightarrow> last s \<in> {CHR ''p'', CHR ''t'', CHR ''e''}"
  by (auto simp: unitTestNames_def)

lemma digits_not_name: "digits n \<notin> set unitTestNames" "CHR ''-'' # digits n \<notin> set unitTestNames"
proof -
  have l: "last (digits n) \<in> set ''0123456789''" and ne: "digits n \<noteq> []"
    using digits_last [of n] by simp_all
  show "digits n \<notin> set unitTestNames"
  proof
    assume "digits n \<in> set unitTestNames"
    then have "last (digits n) \<in> {CHR ''p'', CHR ''t'', CHR ''e''}"
      by (rule unitTestNames_last)
    with l show False by auto
  qed
  show "CHR ''-'' # digits n \<notin> set unitTestNames"
  proof
    assume "CHR ''-'' # digits n \<in> set unitTestNames"
    then have "last (CHR ''-'' # digits n) \<in> {CHR ''p'', CHR ''t'', CHR ''e''}"
      by (rule unitTestNames_last)
    with ne have "last (digits n) \<in> {CHR ''p'', CHR ''t'', CHR ''e''}" by simp
    with l show False by auto
  qed
qed

lemma regexp_unitTest_iff:
  "regexp_test unitTestRe v = Inr True \<longleftrightarrow> (\<exists>s. v = Str s \<and> s \<in> set unitTestNames)"
proof (cases v)
  case (Num n)
  then show ?thesis
    using digits_not_name by (simp add: regexp_test_def unitTestRe_iff del: digits.simps)
next
  case (Bool b)
  then show ?thesis by (simp add: regexp_test_def unitTestRe_iff unitTestNames_def)
qed (simp_all add: regexp_test_def unitTestRe_iff, simp_all add: unitTestNames_def)

lemma regexp_unitTest_Str: "regexp_test unitTestRe (Str s) = Inr (s \<in> set unitTestNames)"
  by (simp add: regexp_test_def unitTestRe_iff)

lemma type_is_True_iff: "type_is v t = Inr True \<longleftrightarrow> own_field v ''type'' = Str t"
  by (cases "v = Undefined \<or> v = Null") (auto simp: type_is_def get_nonnullish)

lemma type_is_Obj [simp]: "type_is (Obj a fs) t = Inr (own_field (Obj a fs) ''type'' = Str t)"
  by (simp add: type_is_def)

lemma type_is_nullish [simp]:
  "type_is Undefined t = Inl TypeError" "type_is Null t = Inl TypeError"
  by (simp_all add: type_is_def)

lemma list_ex_eq_Str: "list_ex (\<lambda>s. v = Str s) names \<longleftrightarrow> (\<exists>s. v = Str s \<and> s \<in> set names)"
  by (auto simp: list_ex_iff)

lemma named_unitTest:
  "and_also (type_is c ''Identifier'') (and_then (get c ''name'') (regexp_test unitTestRe))
     = Inr True \<longleftrightarrow> namedIdentifier c unitTestNames"
proof (cases "c = Undefined \<or> c = Null")
  case True
  then show ?thesis by (auto simp: type_is_def namedIdentifier_def)
next
  case False
  then show ?thesis
    by (simp add: and_also_True_iff type_is_True_iff get_nonnullish regexp_unitTest_iff
        namedIdentifier_def list_ex_eq_Str)
qed

lemma named_unitTest_False:
  "own_field c ''type'' \<noteq> Str ''Identifier'' \<Longrightarrow> c \<noteq> Undefined \<Longrightarrow> c \<noteq> Null \<Longrightarrow>
   and_also (type_is c ''Identifier'') (and_then (get c ''name'') (regexp_test unitTestRe))
     = Inr False"
  by (simp add: type_is_def get_nonnullish)

lemma named_only_skip:
  "and_then (get pr ''name'') (\<lambda>nm. Inr (nm = Str ''only'' \<or> nm = Str ''skip'')) = Inr True
   \<longleftrightarrow> pr \<noteq> Undefined \<and> pr \<noteq> Null \<and>
       list_ex (\<lambda>s. own_field pr ''name'' = Str s) [''only'', ''skip'']"
  by (cases "pr = Undefined \<or> pr = Null") (auto simp: get_nonnullish)

lemma isSkipOrOnlyBlock_iff:
  assumes "n \<noteq> Undefined" "n \<noteq> Null"
  shows "isSkipOrOnlyBlock n = Inr True \<longleftrightarrow>
         (own_field (own_field n ''callee'') ''type'' = Str ''MemberExpression'' \<or>
          own_field (own_field n ''callee'') ''type'' = Str ''OptionalMemberExpression'') \<and>
         namedIdentifier (own_field (own_field n ''callee'') ''object'') unitTestNames \<and>
         namedIdentifier (own_field (own_field n ''callee'') ''property'') [''only'', ''skip'']"
proof (cases "own_field n ''callee'' = Undefined \<or> own_field n ''callee'' = Null")
  case True
  then show ?thesis
    by (auto simp: isSkipOrOnlyBlock_def get_nonnullish [OF assms])
next
  case False
  let ?c = "own_field n ''callee''"
  have g: "\<And>k. get ?c k = Inr (own_field ?c k)"
    using False by (simp add: get_nonnullish)
  have tc: "\<And>t. type_is ?c t = Inr (own_field ?c ''type'' = Str t)"
    by (simp add: type_is_def g)
  let ?ob = "own_field ?c ''object''" and ?pr = "own_field ?c ''property''"
  have ob: "and_then (get ?ob ''name'') (regexp_test unitTestRe) = Inr True \<and>
            own_field ?ob ''type'' = Str ''Identifier''
            \<longleftrightarrow> namedIdentifier ?ob unitTestNames"
    using named_unitTest [of ?ob]
    by (auto simp: and_also_True_iff type_is_True_iff)
  have pr: "and_then (get ?pr ''name'') (\<lambda>nm. Inr (nm = Str ''only'' \<or> nm = Str ''skip''))
              = Inr True \<and>
            own_field ?pr ''type'' = Str ''Identifier''
            \<longleftrightarrow> namedIdentifier ?pr [''only'', ''skip'']"
    using named_only_skip [of ?pr]
    by (auto simp: namedIdentifier_def)
  have "isSkipOrOnlyBlock n = Inr True \<longleftrightarrow>
        (own_field ?c ''type'' = Str ''MemberExpression'' \<or>
         own_field ?c ''type'' = Str ''OptionalMemberExpression'') \<and>
        own_field ?ob ''type'' = Str ''Identifier'' \<and>
        own_field ?pr ''type'' = Str ''Identifier'' \<and>
        and_then (get ?ob ''name'') (regexp_test unitTestRe) = Inr True \<and>
        and_then (get ?pr ''name'') (\<lambda>nm. Inr (nm = Str ''only'' \<or> nm = Str ''skip''))
          = Inr True"
    unfolding isSkipOrOnlyBlock_def
    by (simp add: get_nonnullish [OF assms] g tc and_also_True_iff type_is_True_iff)
  with ob pr show ?thesis by blast
qed

lemma callee_test:
  assumes "n \<noteq> Undefined" "n \<noteq> Null"
  shows "or_else (and_then (get n ''callee'') (\<lambda>callee.
                    and_also (type_is callee ''Identifier'')
                      (and_then (get callee ''name'') (regexp_test unitTestRe))))
                 (isSkipOrOnlyBlock n) = Inr True
         \<longleftrightarrow> isTestCallee (own_field n ''callee'')"
proof -
  let ?c = "own_field n ''callee''"
  let ?A = "and_also (type_is ?c ''Identifier'')
              (and_then (get ?c ''name'') (regexp_test unitTestRe))"
  let ?M = "(own_field ?c ''type'' = Str ''MemberExpression'' \<or>
             own_field ?c ''type'' = Str ''OptionalMemberExpression'') \<and>
            namedIdentifier (own_field ?c ''object'') unitTestNames \<and>
            namedIdentifier (own_field ?c ''property'') [''only'', ''skip'']"
  have A: "?A = Inr True \<longleftrightarrow> namedIdentifier ?c unitTestNames"
    by (rule named_unitTest)
  have B: "isSkipOrOnlyBlock n = Inr True \<longleftrightarrow> ?M"
    by (rule isSkipOrOnlyBlock_iff [OF assms])
  have M: "?A = Inr False" if "?M"
  proof (rule named_unitTest_False)
    from that show "own_field ?c ''type'' \<noteq> Str ''Identifier''" by auto
    from that show "?c \<noteq> Undefined" "?c \<noteq> Null" by auto
  qed
  have "or_else ?A (isSkipOrOnlyBlock n) = Inr True \<longleftrightarrow> namedIdentifier ?c unitTestNames \<or> ?M"
    unfolding or_else_True_iff A B using M by blast
  then show ?thesis
    by (simp add: get_nonnullish [OF assms] isTestCallee_def)
qed

lemma title_test:
  "isObject a \<Longrightarrow> or_else (isTemplateLiteral a) (isStringLiteral a) = Inr (isTestTitle a)"
  by (cases a) (auto simp: isObject_def isTemplateLiteral_def isStringLiteral_def isTestTitle_def)

lemma timeout_test: "isObject a \<Longrightarrow> isNumericLiteral a = Inr (isTimeout a)"
  by (cases a) (auto simp: isObject_def isNumericLiteral_def isTimeout_def)

lemma function_test: "isObject a \<Longrightarrow> isFunctionOrArrowExpression a = Inr (isFunctionOrArrow a)"
  by (cases a) (auto simp: isObject_def isFunctionOrArrowExpression_def isFunctionOrArrow_def)

lemma body_test:
  assumes "isObject a"
  shows "isFunctionOrArrowExpressionWithBody a = Inr True \<longleftrightarrow> hasBlockBody a"
    and "\<not> isFunctionOrArrow a \<Longrightarrow> isFunctionOrArrowExpressionWithBody a = Inr False"
proof -
  from assms obtain x fs where a: "a = Obj x fs"
    by (cases a) (simp_all add: isObject_def)
  show "isFunctionOrArrowExpressionWithBody a = Inr True \<longleftrightarrow> hasBlockBody a"
    by (simp add: a isFunctionOrArrowExpressionWithBody_def hasBlockBody_def
        or_else_True_iff and_also_True_iff type_is_True_iff) blast
  show "isFunctionOrArrowExpressionWithBody a = Inr False" if "\<not> isFunctionOrArrow a"
    using that by (simp add: a isFunctionOrArrowExpressionWithBody_def isFunctionOrArrow_def)
qed

lemma wrapper_test:
  assumes "isObject a"
  shows "isAngularTestWrapper a = Inr True \<longleftrightarrow> isAsyncWrapper a"
    and "isFunctionOrArrow a \<Longrightarrow> isAngularTestWrapper a = Inr False"
proof -
  from assms obtain x fs where a: "a = Obj x fs"
    by (cases a) (simp_all add: isObject_def)
  let ?c = "own_field a ''callee''"
  have "and_also (type_is ?c ''Identifier'')
          (and_then (get ?c ''name'') (\<lambda>nm.
             Inr (nm = Str ''async'' \<or> nm = Str ''inject'' \<or> nm = Str ''fakeAsync'')))
        = Inr True \<longleftrightarrow> namedIdentifier ?c [''async'', ''inject'', ''fakeAsync'']"
    by (cases "?c = Undefined \<or> ?c = Null")
       (auto simp: namedIdentifier_def get_nonnullish and_also_True_iff type_is_True_iff)
  moreover have g: "\<And>k. get a k = Inr (own_field a k)"
    and tc: "\<And>t. type_is a t = Inr (own_field a ''type'' = Str t)"
    by (simp_all add: a)
  ultimately show "isAngularTestWrapper a = Inr True \<longleftrightarrow> isAsyncWrapper a"
    by (simp add: isAngularTestWrapper_def isAsyncWrapper_def g tc and_also_True_iff)
  show "isAngularTestWrapper a = Inr False" if "isFunctionOrArrow a"
    using that by (auto simp add: a isAngularTestWrapper_def isFunctionOrArrow_def)
qed

lemma params_test:
  "own_field a ''params'' = Arr ps \<Longrightarrow> a \<noteq> Undefined \<Longrightarrow> a \<noteq> Null \<Longrightarrow>
   and_then (get a ''params'') (\<lambda>params.
     and_then (get params ''length'') (\<lambda>l. js_le l 1)) = Inr (atMostOneParam a)"
  by (simp add: get_nonnullish js_le_def atMostOneParam_def)

lemma and_then_guard_True:
  "and_then r (\<lambda>b. if \<not> b then Inr False else k) = Inr True \<longleftrightarrow> r = Inr True \<and> k = Inr True"
proof (cases r)
  case (Inl e)
  then show ?thesis by simp
next
  case (Inr b)
  then show ?thesis by (cases b) simp_all
qed

lemma or_else_Inr_left: "or_else (Inr b) k = Inr True \<longleftrightarrow> b \<or> k = Inr True"
  by (cases b) simp_all

lemma isTestCall_two_arguments:
  assumes "get n ''type'' = Inr (Str ''CallExpression'')"
      and "get n ''arguments'' = Inr (Arr [a0, a1])"
      and "isObject a0" and "isObject a1"
  shows "isTestCall n parent = Inr True \<longleftrightarrow>
           isTestCallee (own_field n ''callee'') \<and> isTestTitle a0 \<and>
           (isFunctionOrArrow a1 \<or> isAsyncWrapper a1)"
proof -
  from assms(1) have nn: "n \<noteq> Undefined" "n \<noteq> Null" by auto
  have "isTestCall n parent =
        and_then
         (and_also
            (or_else (and_then (get n ''callee'') (\<lambda>callee.
                        and_also (type_is callee ''Identifier'')
                          (and_then (get callee ''name'') (regexp_test unitTestRe))))
                     (isSkipOrOnlyBlock n))
            (Inr (isTestTitle a0))) (\<lambda>named.
          if \<not> named then Inr False
          else or_else (Inr (isFunctionOrArrow a1)) (isAngularTestWrapper a1))"
    by (subst isTestCall.simps)
       (simp add: type_is_def assms(1,2) title_test [OF assms(3)] function_test [OF assms(4)]
          cong: if_cong)
  then show ?thesis
    by (simp add: and_then_guard_True and_also_True_iff callee_test [OF nn]
        or_else_Inr_left wrapper_test(1) [OF assms(4)])
qed

lemma isTestCall_three_arguments:
  assumes "get n ''type'' = Inr (Str ''CallExpression'')"
      and "get n ''arguments'' = Inr (Arr [a0, a1, a2])"
      and "isObject a0" and "isObject a1" and "isObject a2"
      and "isFunctionOrArrow a1 \<longrightarrow> (\<exists>ps. own_field a1 ''params'' = Arr ps)"
  shows "isTestCall n parent = Inr True \<longleftrightarrow>
           isTestCallee (own_field n ''callee'') \<and> isTestTitle a0 \<and> isTimeout a2 \<and>
           (hasBlockBody a1 \<and> atMostOneParam a1 \<or> isAsyncWrapper a1)"
proof -
  from assms(1) have nn: "n \<noteq> Undefined" "n \<noteq> Null" by auto
  from assms(4) have nn1: "a1 \<noteq> Undefined" "a1 \<noteq> Null" by (auto simp: isObject_def)
  from assms(5) have t2: "truthy a2" by (cases a2) (simp_all add: isObject_def)
  let ?second = "or_else
                   (and_also (isFunctionOrArrowExpressionWithBody a1)
                      (and_then (get a1 ''params'') (\<lambda>params.
                         and_then (get params ''length'') (\<lambda>l. js_le l 1))))
                   (isAngularTestWrapper a1)"
  have unfold: "isTestCall n parent =
        and_then
         (and_also
            (or_else (and_then (get n ''callee'') (\<lambda>callee.
                        and_also (type_is callee ''Identifier'')
                          (and_then (get callee ''name'') (regexp_test unitTestRe))))
                     (isSkipOrOnlyBlock n))
            (Inr (isTestTitle a0))) (\<lambda>named.
          if \<not> named then Inr False
          else if \<not> isTimeout a2 then Inr False else ?second)"
    by (subst isTestCall.simps)
       (simp add: type_is_def assms(1,2) title_test [OF assms(3)] timeout_test [OF assms(5)] t2
          cong: if_cong)
  have second: "?second = Inr True \<longleftrightarrow> hasBlockBody a1 \<and> atMostOneParam a1 \<or> isAsyncWrapper a1"
  proof (cases "isFunctionOrArrow a1")
    case True
    with assms(6) obtain ps where "own_field a1 ''params'' = Arr ps" by blast
    then have p: "and_then (get a1 ''params'') (\<lambda>params.
                    and_then (get params ''length'') (\<lambda>l. js_le l 1)) = Inr (atMostOneParam a1)"
      using nn1 by (rule params_test)
    from True have w: "isAngularTestWrapper a1 = Inr False"
      by (rule wrapper_test(2) [OF assms(4)])
    from True have "\<not> isAsyncWrapper a1"
      by (auto simp: isFunctionOrArrow_def isAsyncWrapper_def)
    then show ?thesis
      by (simp add: p w or_else_True_iff and_also_True_iff body_test(1) [OF assms(4)])
  next
    case False
    then have "\<not> hasBlockBody a1"
      by (auto simp: isFunctionOrArrow_def hasBlockBody_def)
    with False show ?thesis
      by (simp add: body_test(2) [OF assms(4)] wrapper_test(1) [OF assms(4)])
  qed
  have "(if \<not> isTimeout a2 then Inr False else ?second) = Inr True \<longleftrightarrow>
        isTimeout a2 \<and> ?second = Inr True"
    by simp
  with second show ?thesis
    unfolding unfold and_then_guard_True and_also_True_iff callee_test [OF nn]
    by simp
qed

lemmas test_call_defs =
  callExpression_def mkIdentifier_def stringLiteral_def numericLiteral_def
  arrowFunctionExpression_def functionExpression_def blockStatement_def memberExpression_def
  isAngularTestWrapper_def isSkipOrOnlyBlock_def isTemplateLiteral_def isStringLiteral_def
  isNumericLiteral_def isFunctionOrArrowExpression_def isFunctionOrArrowExpressionWithBody_def
  type_is_def regexp_test_def unitTestRe_def is_string_def is_number_def js_le_def

lemma test_call_examples:
  "isTestCall (callExpression 1 (mkIdentifier 2 ''it'')
      [stringLiteral 3 ''x'', arrowFunctionExpression 4 [] (blockStatement 5 [])]) Null
     = Inr True"
  "isTestCall (callExpression 1
      (memberExpression 2 (mkIdentifier 3 ''it'') (mkIdentifier 4 ''skip''))
      [stringLiteral 5 ''x'', arrowFunctionExpression 6 [] (blockStatement 7 [])]) Null
     = Inr True"
  "isTestCall (callExpression 1 (mkIdentifier 2 ''it'')
      [stringLiteral 3 ''x'', arrowFunctionExpression 4 [] (blockStatement 5 []),
       numericLiteral 6 5000]) Null
     = Inr True"
  "isTestCall (callExpression 1 (mkIdentifier 2 ''it'')
      [stringLiteral 3 ''x'', functionExpression 4 [] (blockStatement 5 []),
       stringLiteral 6 ''oops'']) Null
     = Inr False"
  "isTestCall (callExpression 1 (mkIdentifier 2 ''foo'')
      [stringLiteral 3 ''x'', arrowFunctionExpression 4 [] (blockStatement 5 [])]) Null
     = Inr False"
  by (subst isTestCall.simps, simp add: test_call_defs)+

lemma test_call_counterexamples:
  "isTestCall (callExpression 1 (mkIdentifier 2 ''it'')
      [stringLiteral 3 ''x'', arrowFunctionExpression 4 [] (mkIdentifier 5 ''done''),
       numericLiteral 6 5000]) Null
     = Inr False"
  "isTestCall (callExpression 1 (mkIdentifier 2 ''skip'')
      [stringLiteral 3 ''x'', arrowFunctionExpression 4 [] (blockStatement 5 [])]) Null
     = Inr True"
  by (subst isTestCall.simps, simp add: test_call_defs)+

text \<open>
  C4. The claim: on a call with two or three arguments \<^verbatim>\<open>isTestCall\<close> returns true
  iff the callee is an identifier matching the pattern (optionally f/x-prefixed
  describe, it or test) or an only/skip member of one, the first argument is a string or
  template literal, the third argument (if present) is a numeric literal, and the second
  argument is a function or arrow expression (with at most one parameter when it has a
  block body, in the three-argument form) or an async wrapper. Two things differ in the
  code. In the three-argument form the callback must have a block body:
  \<^verbatim>\<open>it("x", () => done, 5000)\<close> has an arrow function as second argument and is not a
  test call. And the pattern also matches the bare name \<^verbatim>\<open>skip\<close>:
  \<^verbatim>\<open>skip("x", () => {})\<close> is a test call.
\<close>

theorem isTestCall_claim_counterexample:
  "isTestCall (callExpression 1 (mkIdentifier 2 ''it'')
      [stringLiteral 3 ''x'', arrowFunctionExpression 4 [] (mkIdentifier 5 ''done''),
       numericLiteral 6 5000]) Null
     = Inr False
   \<and> isFunctionOrArrowExpression (arrowFunctionExpression 4 [] (mkIdentifier 5 ''done''))
     = Inr True
   \<and> isTestCall (callExpression 1 (mkIdentifier 2 ''skip'')
      [stringLiteral 3 ''x'', arrowFunctionExpression 4 [] (blockStatement 5 [])]) Null
     = Inr True"
proof (intro conjI)
  show "isFunctionOrArrowExpression (arrowFunctionExpression 4 [] (mkIdentifier 5 ''done''))
     = Inr True"
    by (simp add: test_call_defs)
qed (rule test_call_counterexamples)+

text \<open>
  C4 as amended. On a call expression with two arguments (both nodes)
  \<^verbatim>\<open>isTestCall\<close> returns true iff the callee is an identifier named \<^verbatim>\<open>skip\<close> or
  an optionally f/x-prefixed \<^verbatim>\<open>it\<close>, \<^verbatim>\<open>describe\<close> or \<^verbatim>\<open>test\<close>, or a member
  \<^verbatim>\<open>.only\<close> or \<^verbatim>\<open>.skip\<close> of such an identifier, the first argument is a template
  or string literal, and the second is a function or arrow expression or an async
  wrapper. With three arguments (all nodes, the parameters of a callback being a list)
  it returns true iff the callee and the first argument are as before, the third
  argument is a numeric literal, and the second is a function expression or an arrow
  function with a block body, with at most one parameter, or an async wrapper. The
  five examples of the claim evaluate as claimed.
\<close>

theorem isTestCall_two_or_three_arguments:
  "(\<forall>n parent a0 a1.
      get n ''type'' = Inr (Str ''CallExpression'') \<longrightarrow>
      get n ''arguments'' = Inr (Arr [a0, a1]) \<longrightarrow>
      isObject a0 \<longrightarrow> isObject a1 \<longrightarrow>
      (isTestCall n parent = Inr True \<longleftrightarrow>
         isTestCallee (own_field n ''callee'') \<and> isTestTitle a0 \<and>
         (isFunctionOrArrow a1 \<or> isAsyncWrapper a1)))
   \<and> (\<forall>n parent a0 a1 a2.
      get n ''type'' = Inr (Str ''CallExpression'') \<longrightarrow>
      get n ''arguments'' = Inr (Arr [a0, a1, a2]) \<longrightarrow>
      isObject a0 \<longrightarrow> isObject a1 \<longrightarrow> isObject a2 \<longrightarrow>
      (isFunctionOrArrow a1 \<longrightarrow> (\<exists>ps. own_field a1 ''params'' = Arr ps)) \<longrightarrow>
      (isTestCall n parent = Inr True \<longleftrightarrow>
         isTestCallee (own_field n ''callee'') \<and> isTestTitle a0 \<and> isTimeout a2 \<and>
         (hasBlockBody a1 \<and> atMostOneParam a1 \<or> isAsyncWrapper a1)))
   \<and> isTestCall (callExpression 1 (mkIdentifier 2 ''it'')
        [stringLiteral 3 ''x'', arrowFunctionExpression 4 [] (blockStatement 5 [])]) Null
      = Inr True
   \<and> isTestCall (callExpression 1
        (memberExpression 2 (mkIdentifier 3 ''it'') (mkIdentifier 4 ''skip''))
        [stringLiteral 5 ''x'', arrowFunctionExpression 6 [] (blockStatement 7 [])]) Null
      = Inr True
   \<and> isTestCall (callExpression 1 (mkIdentifier 2 ''it'')
        [stringLiteral 3 ''x'', arrowFunctionExpression 4 [] (blockStatement 5 []),
         numericLiteral 6 5000]) Null
      = Inr True
   \<and> isTestCall (callExpression 1 (mkIdentifier 2 ''it'')
        [stringLiteral 3 ''x'', functionExpression 4 [] (blockStatement 5 []),
         stringLiteral 6 ''oops'']) Null
      = Inr False
   \<and> isTestCall (callExpression 1 (mkIdentifier 2 ''foo'')
        [stringLiteral 3 ''x'', arrowFunctionExpression 4 [] (blockStatement 5 [])]) Null
      = Inr False"
proof (intro conjI allI impI)
  fix n parent a0 a1
  assume "get n ''type'' = Inr (Str ''CallExpression'')"
    "get n ''arguments'' = Inr (Arr [a0, a1])" "isObject a0" "isObject a1"
  then show "isTestCall n parent = Inr True \<longleftrightarrow>
         isTestCallee (own_field n ''callee'') \<and> isTestTitle a0 \<and>
         (isFunctionOrArrow a1 \<or> isAsyncWrapper a1)"
    by (rule isTestCall_two_arguments)
next
  fix n parent a0 a1 a2
  assume "get n ''type'' = Inr (Str ''CallExpression'')"
    "get n ''arguments'' = Inr (Arr [a0, a1, a2])" "isObject a0" "isObject a1" "isObject a2"
    "isFunctionOrArrow a1 \<longrightarrow> (\<exists>ps. own_field a1 ''params'' = Arr ps)"
  then show "isTestCall n parent = Inr True \<longleftrightarrow>
         isTestCallee (own_field n ''callee'') \<and> isTestTitle a0 \<and> isTimeout a2 \<and>
         (hasBlockBody a1 \<and> atMostOneParam a1 \<or> isAsyncWrapper a1)"
    by (rule isTestCall_three_arguments)
qed (rule test_call_examples)+

lemmas test_shape_defs =
  callExpression_def mkIdentifier_def stringLiteral_def numericLiteral_def
  arrowFunctionExpression_def functionExpression_def blockStatement_def memberExpression_def
  templateLiteral_def isObject_def isTestCallee_def namedIdentifier_def unitTestNames_def
  isTestTitle_def isTimeout_def isFunctionOrArrow_def hasBlockBody_def atMostOneParam_def
  isAsyncWrapper_def is_string_def is_number_def

theorem isTestCall_two_or_three_arguments_witness:
  "isTestCall (callExpression 1 (mkIdentifier 2 ''fdescribe'')
      [stringLiteral 3 ''x'',
       functionExpression 4 [mkIdentifier 5 ''a'', mkIdentifier 6 ''b''] (blockStatement 7 [])])
      Null = Inr True
   \<and> isTestCall (callExpression 1 (mkIdentifier 2 ''it'')
      [stringLiteral 3 ''x'',
       functionExpression 4 [mkIdentifier 5 ''a'', mkIdentifier 6 ''b''] (blockStatement 7 []),
       numericLiteral 8 100]) Null \<noteq> Inr True
   \<and> isTestCall (callExpression 1
      (memberExpression 2 (mkIdentifier 3 ''test'') (mkIdentifier 4 ''only''))
      [templateLiteral 5 [],
       arrowFunctionExpression 6 [mkIdentifier 7 ''done''] (blockStatement 8 []),
       numericLiteral 9 100]) Null = Inr True"
proof (intro conjI)
  let ?a0 = "stringLiteral 3 ''x''"
  let ?a1 = "functionExpression 4 [mkIdentifier 5 ''a'', mkIdentifier 6 ''b'']
               (blockStatement 7 [])"
  show "isTestCall (callExpression 1 (mkIdentifier 2 ''fdescribe'') [?a0, ?a1]) Null = Inr True"
    using isTestCall_two_or_three_arguments [THEN conjunct1, rule_format,
        of "callExpression 1 (mkIdentifier 2 ''fdescribe'') [?a0, ?a1]" ?a0 ?a1 Null]
    by (simp add: test_shape_defs)
  let ?a2 = "numericLiteral 8 100"
  show "isTestCall (callExpression 1 (mkIdentifier 2 ''it'') [?a0, ?a1, ?a2]) Null \<noteq> Inr True"
    using isTestCall_two_or_three_arguments [THEN conjunct2, THEN conjunct1, rule_format,
        of "callExpression 1 (mkIdentifier 2 ''it'') [?a0, ?a1, ?a2]" ?a0 ?a1 ?a2 Null]
    by (simp add: test_shape_defs)
next
  let ?c = "memberExpression 2 (mkIdentifier 3 ''test'') (mkIdentifier 4 ''only'')"
  let ?a0 = "templateLiteral 5 []"
  let ?a1 = "arrowFunctionExpression 6 [mkIdentifier 7 ''done''] (blockStatement 8 [])"
  let ?a2 = "numericLiteral 9 100"
  show "isTestCall (callExpression 1 ?c [?a0, ?a1, ?a2]) Null = Inr True"
    using isTestCall_two_or_three_arguments [THEN conjunct2, THEN conjunct1, rule_format,
        of "callExpression 1 ?c [?a0, ?a1, ?a2]" ?a0 ?a1 ?a2 Null]
    by (simp add: test_shape_defs)
qed

end
